theory Spec2Isabelle
  imports Complex_Main
begin

section \<open>Numbers and values\<close>

text \<open>
  The synthesizer is a React component (\<^verbatim>\<open>src/components/Synthesizer.tsx\<close>) driving the
  Web Audio API, a knob widget (\<^verbatim>\<open>src/components/Knob.tsx\<close>) and three Convex
  functions for presets. A JavaScript \<^verbatim>\<open>number\<close> is modelled as a real. In the
  audio part every arithmetic expression of the source is read in exact arithmetic, so
  rounding of doubles (and of the \<^verbatim>\<open>Float32Array\<close> that stores the distortion curve)
  is not part of the model there. The knob computes in doubles: each of its operations
  is the exact one followed by rounding to the nearest double.
\<close>

datatype jsval = Num real | Str string

section \<open>SynthParams\<close>

record oscillator_rec =
  oscillator_type :: string
  oscillator_frequency :: real
  oscillator_detune :: real

record filter_rec =
  filter_type :: string
  filter_frequency :: real
  filter_Q :: real

record envelope_rec =
  envelope_attack :: real
  envelope_decay :: real
  envelope_sustain :: real
  envelope_release :: real

record effects_rec =
  effects_reverb :: real
  effects_delay :: real
  effects_distortion :: real

record SynthParams =
  oscillator :: oscillator_rec
  filter_params :: filter_rec
  envelope :: envelope_rec
  effects :: effects_rec
  volume :: real

definition defaultParams :: SynthParams where
  "defaultParams =
     \<lparr> oscillator = \<lparr> oscillator_type = ''sawtooth'', oscillator_frequency = 440,
                      oscillator_detune = 0 \<rparr>,
       filter_params = \<lparr> filter_type = ''lowpass'', filter_frequency = 2000, filter_Q = 1 \<rparr>,
       envelope = \<lparr> envelope_attack = 0.1, envelope_decay = 0.3, envelope_sustain = 0.7,
                    envelope_release = 0.5 \<rparr>,
       effects = \<lparr> effects_reverb = 0.2, effects_delay = 0.1, effects_distortion = 0 \<rparr>,
       volume = 0.5 \<rparr>"

subsection \<open>updateParam\<close>

text \<open>
  \<^verbatim>\<open>updateParam(category, param, value)\<close> replaces the state by
  \<^verbatim>\<open>{...prev, [category]: {...prev[category], [param]: value}}\<close>: one property of one
  nested object is overwritten with the value as given, and nothing is checked. The
  state keeps the shape of the interface \<^verbatim>\<open>SynthParams\<close>, so the model follows the
  write for the properties that the interface declares, with a value of the declared
  kind (a number for the numeric fields, a string for the two \<^verbatim>\<open>type\<close> fields),
  which is what every call site passes. A write of another property name adds a
  property that no code reads; it leaves the declared fields as they are. The
  category \<^verbatim>\<open>volume\<close> is never passed: the volume knob calls \<^verbatim>\<open>setParams\<close> itself
  (\<open>setVolume\<close> below).
\<close>

datatype category = CatOscillator | CatFilter | CatEnvelope | CatEffects

fun set_oscillator :: "string \<Rightarrow> jsval \<Rightarrow> oscillator_rec \<Rightarrow> oscillator_rec" where
  "set_oscillator param (Num v) r =
     (if param = ''frequency'' then r\<lparr>oscillator_frequency := v\<rparr>
      else if param = ''detune'' then r\<lparr>oscillator_detune := v\<rparr>
      else r)"
| "set_oscillator param (Str w) r =
     (if param = ''type'' then r\<lparr>oscillator_type := w\<rparr> else r)"

fun set_filter :: "string \<Rightarrow> jsval \<Rightarrow> filter_rec \<Rightarrow> filter_rec" where
  "set_filter param (Num v) r =
     (if param = ''frequency'' then r\<lparr>filter_frequency := v\<rparr>
      else if param = ''Q'' then r\<lparr>filter_Q := v\<rparr>
      else r)"
| "set_filter param (Str w) r =
     (if param = ''type'' then r\<lparr>filter_type := w\<rparr> else r)"

fun set_envelope :: "string \<Rightarrow> jsval \<Rightarrow> envelope_rec \<Rightarrow> envelope_rec" where
  "set_envelope param (Num v) r =
     (if param = ''attack'' then r\<lparr>envelope_attack := v\<rparr>
      else if param = ''decay'' then r\<lparr>envelope_decay := v\<rparr>
      else if param = ''sustain'' then r\<lparr>envelope_sustain := v\<rparr>
      else if param = ''release'' then r\<lparr>envelope_release := v\<rparr>
      else r)"
| "set_envelope param (Str w) r = r"

fun set_effects :: "string \<Rightarrow> jsval \<Rightarrow> effects_rec \<Rightarrow> effects_rec" where
  "set_effects param (Num v) r =
     (if param = ''reverb'' then r\<lparr>effects_reverb := v\<rparr>
      else if param = ''delay'' then r\<lparr>effects_delay := v\<rparr>
      else if param = ''distortion'' then r\<lparr>effects_distortion := v\<rparr>
      else r)"
| "set_effects param (Str w) r = r"

fun updateParam :: "category \<Rightarrow> string \<Rightarrow> jsval \<Rightarrow> SynthParams \<Rightarrow> SynthParams" where
  "updateParam CatOscillator param v prev =
     prev\<lparr>oscillator := set_oscillator param v (oscillator prev)\<rparr>"
| "updateParam CatFilter param v prev =
     prev\<lparr>filter_params := set_filter param v (filter_params prev)\<rparr>"
| "updateParam CatEnvelope param v prev =
     prev\<lparr>envelope := set_envelope param v (envelope prev)\<rparr>"
| "updateParam CatEffects param v prev =
     prev\<lparr>effects := set_effects param v (effects prev)\<rparr>"

text \<open>The volume knob: \<^verbatim>\<open>setParams(prev => ({ ...prev, volume: value }))\<close>.\<close>

definition setVolume :: "real \<Rightarrow> SynthParams \<Rightarrow> SynthParams" where
  "setVolume v prev = prev\<lparr>volume := v\<rparr>"

text \<open>
  \<^verbatim>\<open>loadPreset(preset)\<close> replaces the whole stored configuration by the five
  parameter groups of a preset, again unchecked.
\<close>

record preset =
  preset_name :: string
  preset_userId :: string
  preset_oscillator :: oscillator_rec
  preset_filter :: filter_rec
  preset_envelope :: envelope_rec
  preset_effects :: effects_rec
  preset_volume :: real

definition loadPreset :: "preset \<Rightarrow> SynthParams" where
  "loadPreset p =
     \<lparr> oscillator = preset_oscillator p, filter_params = preset_filter p,
       envelope = preset_envelope p, effects = preset_effects p,
       volume = preset_volume p \<rparr>"

text \<open>
  The ranges that the data model declares for the numeric fields: detune in
  \<open>[-100, 100]\<close>, cutoff in \<open>[20, 20000]\<close>, Q in \<open>[0.1, 30]\<close>, attack and decay in
  \<open>(0, 2]\<close>, sustain in \<open>[0, 1]\<close>, release in \<open>(0, 3]\<close>, the three effect amounts and
  the volume in \<open>[0, 1]\<close>. They appear in the source only as the bounds of the knobs.
\<close>

definition in_range :: "SynthParams \<Rightarrow> bool" where
  "in_range p \<longleftrightarrow>
     - 100 \<le> oscillator_detune (oscillator p) \<and> oscillator_detune (oscillator p) \<le> 100 \<and>
     20 \<le> filter_frequency (filter_params p) \<and> filter_frequency (filter_params p) \<le> 20000 \<and>
     0.1 \<le> filter_Q (filter_params p) \<and> filter_Q (filter_params p) \<le> 30 \<and>
     0 < envelope_attack (envelope p) \<and> envelope_attack (envelope p) \<le> 2 \<and>
     0 < envelope_decay (envelope p) \<and> envelope_decay (envelope p) \<le> 2 \<and>
     0 \<le> envelope_sustain (envelope p) \<and> envelope_sustain (envelope p) \<le> 1 \<and>
     0 < envelope_release (envelope p) \<and> envelope_release (envelope p) \<le> 3 \<and>
     0 \<le> effects_reverb (effects p) \<and> effects_reverb (effects p) \<le> 1 \<and>
     0 \<le> effects_delay (effects p) \<and> effects_delay (effects p) \<le> 1 \<and>
     0 \<le> effects_distortion (effects p) \<and> effects_distortion (effects p) \<le> 1 \<and>
     0 \<le> volume p \<and> volume p \<le> 1"

section \<open>Knob\<close>

subsection \<open>Double arithmetic\<close>

text \<open>
  A double is a real of the form \<open>k * 2^e\<close> with \<open>|k| < 2^53\<close> and \<open>e \<ge> -1074\<close>. \<open>fl x\<close>
  is the double nearest to \<open>x\<close>, a tie going to the even significand: for
  \<open>2^b \<le> |x| < 2^(b+1)\<close> with \<open>b \<ge> -1022\<close> the doubles around \<open>x\<close> are the multiples of
  \<open>ulp x = 2^(b-52)\<close>, and below \<open>2^(-1022)\<close> they are the multiples of \<open>2^(-1074)\<close>. An
  operation on doubles is the exact operation followed by \<open>fl\<close>; a literal such as
  \<^verbatim>\<open>0.01\<close> denotes \<open>fl 0.01\<close>. The exponent is not bounded above: overflow, infinities
  and \<^verbatim>\<open>NaN\<close> (a step of \<open>0\<close>) are outside the model.
\<close>

definition binade :: "real \<Rightarrow> int" where
  "binade x = max (- 1022) \<lfloor>log 2 \<bar>x\<bar>\<rfloor>"

definition ulp :: "real \<Rightarrow> real" where
  "ulp x = 2 powr (real_of_int (binade x) - 52)"

definition round_even :: "real \<Rightarrow> int" where
  "round_even r =
     (let f = \<lfloor>r\<rfloor> in
      if r - real_of_int f < 1 / 2 then f
      else if 1 / 2 < r - real_of_int f then f + 1
      else if even f then f else f + 1)"

definition fl :: "real \<Rightarrow> real" where
  "fl x = (if x = 0 then 0 else real_of_int (round_even (x / ulp x)) * ulp x)"

subsection \<open>The component\<close>

text \<open>
  The props of a knob (\<^verbatim>\<open>value\<close>, \<^verbatim>\<open>min\<close>, \<^verbatim>\<open>max\<close>, \<^verbatim>\<open>step\<close>, default step
  \<^verbatim>\<open>0.01\<close>) and its drag state, all doubles. \<^verbatim>\<open>handleMouseMove\<close> returns early when
  no drag is in progress; otherwise it calls \<^verbatim>\<open>onChange\<close> once, and the model returns
  the argument of that call. Subtraction, division, multiplication and addition round;
  \<^verbatim>\<open>Math.max\<close>, \<^verbatim>\<open>Math.min\<close> and \<^verbatim>\<open>Math.round\<close> are exact, and \<^verbatim>\<open>Math.round(x)\<close> is
  \<open>\<lfloor>x + 1/2\<rfloor>\<close>.
\<close>

record knob_props =
  knob_value :: real
  knob_min :: real
  knob_max :: real
  knob_step :: real

record knob_state =
  isDragging :: bool
  startY :: real
  startValue :: real

definition default_step :: real where
  "default_step = fl 0.01"

definition Math_round :: "real \<Rightarrow> int" where
  "Math_round x = \<lfloor>x + 1 / 2\<rfloor>"

definition handleMouseDown :: "knob_props \<Rightarrow> real \<Rightarrow> knob_state \<Rightarrow> knob_state" where
  "handleMouseDown k clientY st =
     st\<lparr>isDragging := True, startY := clientY, startValue := knob_value k\<rparr>"

definition drag_value :: "knob_props \<Rightarrow> knob_state \<Rightarrow> real \<Rightarrow> real" where
  "drag_value k st clientY =
     (let deltaY = fl (startY st - clientY);
          sensitivity = fl (fl (knob_max k - knob_min k) / 200)
      in fl (startValue st + fl (deltaY * sensitivity)))"

definition handleMouseMove :: "knob_props \<Rightarrow> knob_state \<Rightarrow> real \<Rightarrow> real option" where
  "handleMouseMove k st clientY =
     (if \<not> isDragging st then None
      else
        let newValue = max (knob_min k) (min (knob_max k) (drag_value k st clientY))
        in Some (fl (real_of_int (Math_round (fl (newValue / knob_step k))) * knob_step k)))"

definition handleMouseUp :: "knob_state \<Rightarrow> knob_state" where
  "handleMouseUp st = st\<lparr>isDragging := False\<rparr>"

text \<open>
  The twelve knobs that the synthesizer renders, each with the field it shows
  (\<^verbatim>\<open>value\<close>), its bounds and its \<^verbatim>\<open>onChange\<close> handler. None passes \<^verbatim>\<open>step\<close>. The
  whole-number bounds are doubles as they stand; \<^verbatim>\<open>0.1\<close> and \<^verbatim>\<open>0.01\<close> are rounded.
\<close>

record knob_inst =
  knob_label :: string
  knob_get :: "SynthParams \<Rightarrow> real"
  inst_min :: real
  inst_max :: real
  knob_onChange :: "real \<Rightarrow> SynthParams \<Rightarrow> SynthParams"

definition mk_knob ::
  "string \<Rightarrow> (SynthParams \<Rightarrow> real) \<Rightarrow> real \<Rightarrow> real \<Rightarrow> (real \<Rightarrow> SynthParams \<Rightarrow> SynthParams)
     \<Rightarrow> knob_inst" where
  "mk_knob l g lo hi f =
     \<lparr> knob_label = l, knob_get = g, inst_min = lo, inst_max = hi, knob_onChange = f \<rparr>"

definition synth_knobs :: "knob_inst list" where
  "synth_knobs =
     [ mk_knob ''Frequency'' (\<lambda>p. oscillator_frequency (oscillator p)) 20 2000
         (\<lambda>v. updateParam CatOscillator ''frequency'' (Num v)),
       mk_knob ''Detune'' (\<lambda>p. oscillator_detune (oscillator p)) (- 100) 100
         (\<lambda>v. updateParam CatOscillator ''detune'' (Num v)),
       mk_knob ''Cutoff'' (\<lambda>p. filter_frequency (filter_params p)) 20 20000
         (\<lambda>v. updateParam CatFilter ''frequency'' (Num v)),
       mk_knob ''Resonance'' (\<lambda>p. filter_Q (filter_params p)) (fl 0.1) 30
         (\<lambda>v. updateParam CatFilter ''Q'' (Num v)),
       mk_knob ''Attack'' (\<lambda>p. envelope_attack (envelope p)) (fl 0.01) 2
         (\<lambda>v. updateParam CatEnvelope ''attack'' (Num v)),
       mk_knob ''Decay'' (\<lambda>p. envelope_decay (envelope p)) (fl 0.01) 2
         (\<lambda>v. updateParam CatEnvelope ''decay'' (Num v)),
       mk_knob ''Sustain'' (\<lambda>p. envelope_sustain (envelope p)) 0 1
         (\<lambda>v. updateParam CatEnvelope ''sustain'' (Num v)),
       mk_knob ''Release'' (\<lambda>p. envelope_release (envelope p)) (fl 0.01) 3
         (\<lambda>v. updateParam CatEnvelope ''release'' (Num v)),
       mk_knob ''Reverb'' (\<lambda>p. effects_reverb (effects p)) 0 1
         (\<lambda>v. updateParam CatEffects ''reverb'' (Num v)),
       mk_knob ''Delay'' (\<lambda>p. effects_delay (effects p)) 0 1
         (\<lambda>v. updateParam CatEffects ''delay'' (Num v)),
       mk_knob ''Distortion'' (\<lambda>p. effects_distortion (effects p)) 0 1
         (\<lambda>v. updateParam CatEffects ''distortion'' (Num v)),
       mk_knob ''Volume'' volume 0 1 setVolume ]"

definition knob_of :: "knob_inst \<Rightarrow> SynthParams \<Rightarrow> knob_props" where
  "knob_of k p =
     \<lparr> knob_value = knob_get k p, knob_min = inst_min k, knob_max = inst_max k,
       knob_step = default_step \<rparr>"

text \<open>A mouse move over a rendered knob: the emitted value, if any, goes to its handler.\<close>

definition knob_drag :: "knob_inst \<Rightarrow> knob_state \<Rightarrow> real \<Rightarrow> SynthParams \<Rightarrow> SynthParams" where
  "knob_drag k st clientY p =
     (case handleMouseMove (knob_of k p) st clientY of
        None \<Rightarrow> p
      | Some v \<Rightarrow> knob_onChange k v p)"

section \<open>Presets\<close>

text \<open>
  The Convex table \<^verbatim>\<open>synthPresets\<close> is a map from document ids to presets. The
  identity of the caller is the result of \<^verbatim>\<open>getAuthUserId(ctx)\<close>: a user id, or
  \<^verbatim>\<open>null\<close> when nobody is signed in. The two \<^verbatim>\<open>throw new Error(...)\<close> of
  \<^verbatim>\<open>deletePreset\<close> are the two errors below; a mutation that throws writes nothing.
\<close>

type_synonym preset_db = "nat \<rightharpoonup> preset"

datatype preset_error =
    MustBeLoggedIn            \<comment> \<open>\<^verbatim>\<open>"Must be logged in"\<close>\<close>
  | NotFoundOrUnauthorized    \<comment> \<open>\<^verbatim>\<open>"Preset not found or unauthorized"\<close>\<close>

definition deletePreset :: "string option \<Rightarrow> nat \<Rightarrow> preset_db \<Rightarrow> preset_error + preset_db" where
  "deletePreset auth presetId db =
     (case auth of
        None \<Rightarrow> Inl MustBeLoggedIn
      | Some userId \<Rightarrow>
          (case db presetId of
             None \<Rightarrow> Inl NotFoundOrUnauthorized
           | Some p \<Rightarrow>
               if preset_userId p \<noteq> userId then Inl NotFoundOrUnauthorized
               else Inr (db(presetId := None))))"

text \<open>
  The database after a call: a call that throws leaves it as it was. The document
  that \<^verbatim>\<open>savePreset\<close> inserts is its arguments together with the caller's id.
\<close>

definition storage_after :: "preset_error + preset_db \<Rightarrow> preset_db \<Rightarrow> preset_db" where
  "storage_after r db = (case r of Inl e \<Rightarrow> db | Inr db' \<Rightarrow> db')"

definition preset_record :: "string \<Rightarrow> string \<Rightarrow> SynthParams \<Rightarrow> preset" where
  "preset_record name userId p =
     \<lparr> preset_name = name, preset_userId = userId, preset_oscillator = oscillator p,
       preset_filter = filter_params p, preset_envelope = envelope p,
       preset_effects = effects p, preset_volume = volume p \<rparr>"

section \<open>Curve generators\<close>

subsection \<open>createDistortionCurve\<close>

text \<open>
  The loop \<^verbatim>\<open>for (let i = 0; i < samples; i++)\<close> writes \<^verbatim>\<open>curve[i]\<close> of a
  \<^verbatim>\<open>Float32Array(samples)\<close>, which starts filled with zeros.
\<close>

definition distortion_sample :: "real \<Rightarrow> nat \<Rightarrow> nat \<Rightarrow> real" where
  "distortion_sample amount samples i =
     (let deg = pi / 180;
          x = (real i * 2) / real samples - 1
      in ((3 + amount) * x * 20 * deg) / (pi + amount * \<bar>x\<bar>))"

function curve_loop :: "nat \<Rightarrow> nat \<Rightarrow> real \<Rightarrow> real list \<Rightarrow> real list" where
  "curve_loop i samples amount curve =
     (if i < samples
      then curve_loop (i + 1) samples amount (curve[i := distortion_sample amount samples i])
      else curve)"
  by pat_completeness auto
termination
  by (relation "measure (\<lambda>(i, samples, amount, curve). samples - i)") auto

definition createDistortionCurve :: "real \<Rightarrow> real list" where
  "createDistortionCurve amount =
     (let samples = 44100 in curve_loop 0 samples amount (replicate samples 0))"

subsection \<open>createImpulseResponse\<close>

text \<open>
  \<^verbatim>\<open>Math.random()\<close> is an input of the model: \<open>rnd k\<close> is the result of the
  \<open>k\<close>-th call, a number in \<open>[0, 1)\<close>, and the loops thread the number of calls made
  so far. The base \<open>1 - i / length\<close> of \<^verbatim>\<open>Math.pow\<close> is positive inside the loop,
  where \<open>powr\<close> is the power function. The sample rate of a context is a whole number
  of Hertz, and the only duration passed is \<open>2\<close>.
\<close>

definition impulse_sample :: "real \<Rightarrow> real \<Rightarrow> nat \<Rightarrow> nat \<Rightarrow> real" where
  "impulse_sample r decay len i = (r * 2 - 1) * (1 - real i / real len) powr decay"

function sample_loop ::
  "nat \<Rightarrow> nat \<Rightarrow> real \<Rightarrow> (nat \<Rightarrow> real) \<Rightarrow> nat \<Rightarrow> real list \<Rightarrow> real list \<times> nat" where
  "sample_loop i len decay rnd k channelData =
     (if i < len
      then sample_loop (i + 1) len decay rnd (k + 1)
             (channelData[i := impulse_sample (rnd k) decay len i])
      else (channelData, k))"
  by pat_completeness auto
termination
  by (relation "measure (\<lambda>(i, len, decay, rnd, k, channelData). len - i)") auto

function channel_loop ::
  "nat \<Rightarrow> nat \<Rightarrow> real \<Rightarrow> (nat \<Rightarrow> real) \<Rightarrow> nat \<Rightarrow> real list list \<Rightarrow> real list list \<times> nat" where
  "channel_loop channel len decay rnd k impulse =
     (if channel < 2
      then (case sample_loop 0 len decay rnd k (impulse ! channel) of
              (channelData, k') \<Rightarrow>
                channel_loop (channel + 1) len decay rnd k' (impulse[channel := channelData]))
      else (impulse, k))"
  by pat_completeness auto
termination
  by (relation "measure (\<lambda>(channel, len, decay, rnd, k, impulse). 2 - channel)") auto

text \<open>\<^verbatim>\<open>createBuffer(2, length, sampleRate)\<close>: two channels of \<open>length\<close> zeros.\<close>

definition createBuffer :: "nat \<Rightarrow> nat \<Rightarrow> real list list" where
  "createBuffer numberOfChannels len = replicate numberOfChannels (replicate len 0)"

section \<open>The audio graph\<close>

subsection \<open>AudioParam automation\<close>

text \<open>
  What the Web Audio API does with the calls the component makes on an
  \<^verbatim>\<open>AudioParam\<close>. A parameter holds its current value (the value the \<^verbatim>\<open>value\<close>
  getter returns) and a list of scheduled events ordered by time; an event scheduled at
  the time of an existing one goes after it.
  \<^verbatim>\<open>cancelScheduledValues(t)\<close> removes the events at times \<open>\<ge> t\<close> and leaves the
  current value alone. Between an event \<open>(v0, t0)\<close> and a following linear ramp to
  \<open>(v1, t1)\<close> the value at \<open>t\<close> is \<open>v0 + (v1 - v0) * (t - t0) / (t1 - t0)\<close>; after the
  last event the value stays.
\<close>

datatype event =
    SetValue real real       \<comment> \<open>value, time\<close>
  | LinearRamp real real     \<comment> \<open>value, end time\<close>

fun event_value :: "event \<Rightarrow> real" where
  "event_value (SetValue v t) = v"
| "event_value (LinearRamp v t) = v"

fun event_time :: "event \<Rightarrow> real" where
  "event_time (SetValue v t) = t"
| "event_time (LinearRamp v t) = t"

record audioParam =
  param_value :: real
  param_events :: "event list"

definition new_param :: "real \<Rightarrow> audioParam" where
  "new_param d = \<lparr> param_value = d, param_events = [] \<rparr>"

fun insert_event :: "event \<Rightarrow> event list \<Rightarrow> event list" where
  "insert_event e [] = [e]"
| "insert_event e (x # xs) =
     (if event_time e < event_time x then e # x # xs else x # insert_event e xs)"

definition setValueAtTime :: "real \<Rightarrow> real \<Rightarrow> audioParam \<Rightarrow> audioParam" where
  "setValueAtTime v t p = p\<lparr>param_events := insert_event (SetValue v t) (param_events p)\<rparr>"

definition linearRampToValueAtTime :: "real \<Rightarrow> real \<Rightarrow> audioParam \<Rightarrow> audioParam" where
  "linearRampToValueAtTime v t p =
     p\<lparr>param_events := insert_event (LinearRamp v t) (param_events p)\<rparr>"

definition cancelScheduledValues :: "real \<Rightarrow> audioParam \<Rightarrow> audioParam" where
  "cancelScheduledValues t p =
     p\<lparr>param_events := filter (\<lambda>e. event_time e < t) (param_events p)\<rparr>"

fun automation :: "real \<Rightarrow> real \<Rightarrow> event list \<Rightarrow> real \<Rightarrow> real" where
  "automation v0 t0 [] t = v0"
| "automation v0 t0 (SetValue v1 t1 # es) t =
     (if t < t1 then v0 else automation v1 t1 es t)"
| "automation v0 t0 (LinearRamp v1 t1 # es) t =
     (if t < t1 then v0 + (v1 - v0) * ((t - t0) / (t1 - t0)) else automation v1 t1 es t)"

text \<open>
  The value of a parameter at time \<open>t\<close>: its current value until the first event, the
  automation curve from there on.
\<close>

definition value_at :: "audioParam \<Rightarrow> real \<Rightarrow> real" where
  "value_at p t =
     (case param_events p of
        [] \<Rightarrow> param_value p
      | e # es \<Rightarrow>
          if t < event_time e then param_value p
          else automation (event_value e) (event_time e) es t)"

text \<open>
  The renderer works in quanta of \<open>128\<close> samples and sets the current value of a
  parameter to the value of its schedule at the start of the quantum it renders. When
  it has rendered up to time \<open>t\<close>, the last quantum started at \<open>t - quantum\<close>, and that
  is the time whose value the getter returns until the next quantum. Before the first
  quantum is rendered after a note-on, the getter still returns the initial value of the
  node.
\<close>

definition render_param :: "real \<Rightarrow> real \<Rightarrow> audioParam \<Rightarrow> audioParam" where
  "render_param quantum t p = p\<lparr>param_value := value_at p (t - quantum)\<rparr>"

subsection \<open>Nodes, voices and the component state\<close>

text \<open>
  Each \<^verbatim>\<open>playNote\<close> creates eight nodes. A node is named by the number of the call
  that created it and by the variable that holds it; \<^verbatim>\<open>ctx.destination\<close> is the one
  shared node. A voice records what the component has set on its nodes; the initial
  values are those the Web Audio API gives a new node.
\<close>

datatype stage =
    OscillatorNode | FilterNode | DistortionNode | GainNode
  | ReverbNode | DelayNode | DelayGain | MasterGain

datatype node = Stage nat stage | Destination

record voice =
  osc_type :: string
  osc_frequency :: audioParam
  osc_detune :: audioParam
  osc_start :: "real option"
  osc_stop :: "real option"
  filterNode_type :: string
  filterNode_frequency :: audioParam
  filterNode_Q :: audioParam
  gainNode_gain :: audioParam
  reverbNode_buffer :: "real list list option"
  delayNode_delayTime :: audioParam
  delayGain_gain :: audioParam
  distortionNode_curve :: "real list option"
  distortionNode_oversample :: string
  masterGain_gain :: audioParam

record audioContext =
  currentTime :: real
  sampleRate :: nat
  voices :: "voice list"
  connections :: "(node \<times> node) list"

text \<open>
  The component: the React state \<^verbatim>\<open>params\<close> and \<^verbatim>\<open>isPlaying\<close>, the refs (a node
  ref holds the number of the voice its node belongs to), and the stream of
  \<^verbatim>\<open>Math.random()\<close> results with the number of calls made.
\<close>

record synth =
  params :: SynthParams
  isPlaying :: bool
  audioContextRef :: "audioContext option"
  oscillatorRef :: "nat option"
  gainNodeRef :: "nat option"
  filterNodeRef :: "nat option"
  random_source :: "nat \<Rightarrow> real"
  random_calls :: nat

definition modify_voice :: "nat \<Rightarrow> (voice \<Rightarrow> voice) \<Rightarrow> voice list \<Rightarrow> voice list" where
  "modify_voice n f vs = (if n < length vs then vs[n := f (vs ! n)] else vs)"

definition createImpulseResponse ::
  "nat \<Rightarrow> real \<Rightarrow> synth \<Rightarrow> real list list option \<times> synth" where
  "createImpulseResponse duration decay s =
     (case audioContextRef s of
        None \<Rightarrow> (None, s)
      | Some ctx \<Rightarrow>
          let len = sampleRate ctx * duration;
              impulse = createBuffer 2 len
          in (case channel_loop 0 len decay (random_source s) (random_calls s) impulse of
                (impulse', k) \<Rightarrow> (Some impulse', s\<lparr>random_calls := k\<rparr>)))"

subsection \<open>stopNote\<close>

definition stopNote :: "synth \<Rightarrow> synth" where
  "stopNote s =
     (case (oscillatorRef s, gainNodeRef s, audioContextRef s) of
        (Some osc, Some g, Some ctx) \<Rightarrow>
          let releaseTime = envelope_release (envelope (params s));
              now = currentTime ctx;
              vs1 = modify_voice g
                      (\<lambda>v. v\<lparr>gainNode_gain := cancelScheduledValues now (gainNode_gain v)\<rparr>)
                      (voices ctx);
              vs2 = modify_voice g
                      (\<lambda>v. v\<lparr>gainNode_gain :=
                               setValueAtTime (param_value (gainNode_gain v)) now
                                 (gainNode_gain v)\<rparr>)
                      vs1;
              vs3 = modify_voice g
                      (\<lambda>v. v\<lparr>gainNode_gain :=
                               linearRampToValueAtTime 0 (now + releaseTime) (gainNode_gain v)\<rparr>)
                      vs2;
              vs4 = modify_voice osc (\<lambda>v. v\<lparr>osc_stop := Some (now + releaseTime)\<rparr>) vs3
          in s\<lparr> audioContextRef := Some (ctx\<lparr>voices := vs4\<rparr>),
                oscillatorRef := None, gainNodeRef := None, filterNodeRef := None,
                isPlaying := False \<rparr>
      | _ \<Rightarrow> s)"

subsection \<open>playNote\<close>

text \<open>The nodes of a new voice as \<^verbatim>\<open>playNote\<close> configures them at time \<open>now\<close>.\<close>

definition configure_voice ::
  "SynthParams \<Rightarrow> real \<Rightarrow> real \<Rightarrow> real list list option \<Rightarrow> voice" where
  "configure_voice p frequency now impulse =
     \<lparr> osc_type = oscillator_type (oscillator p),
       osc_frequency = setValueAtTime frequency now (new_param 440),
       osc_detune = setValueAtTime (oscillator_detune (oscillator p)) now (new_param 0),
       osc_start = None,
       osc_stop = None,
       filterNode_type = filter_type (filter_params p),
       filterNode_frequency =
         setValueAtTime (filter_frequency (filter_params p)) now (new_param 350),
       filterNode_Q = setValueAtTime (filter_Q (filter_params p)) now (new_param 1),
       gainNode_gain =
         linearRampToValueAtTime (volume p * envelope_sustain (envelope p))
           (now + envelope_attack (envelope p) + envelope_decay (envelope p))
           (linearRampToValueAtTime (volume p) (now + envelope_attack (envelope p))
              (setValueAtTime 0 now (new_param 1))),
       reverbNode_buffer = (case impulse of None \<Rightarrow> None | Some b \<Rightarrow> Some b),
       delayNode_delayTime = setValueAtTime 0.3 now (new_param 0),
       delayGain_gain = setValueAtTime (effects_delay (effects p)) now (new_param 1),
       distortionNode_curve =
         (if effects_distortion (effects p) > 0
          then Some (createDistortionCurve (effects_distortion (effects p) * 100))
          else None),
       distortionNode_oversample =
         (if effects_distortion (effects p) > 0 then ''4x'' else ''none''),
       masterGain_gain = setValueAtTime (volume p) now (new_param 1) \<rparr>"

text \<open>The \<^verbatim>\<open>connect\<close> calls of \<^verbatim>\<open>playNote\<close> for voice \<open>n\<close>, in the order they are made.\<close>

definition connect_voice :: "SynthParams \<Rightarrow> nat \<Rightarrow> (node \<times> node) list" where
  "connect_voice p n =
     [(Stage n OscillatorNode, Stage n FilterNode)] @
     (if effects_distortion (effects p) > 0
      then [(Stage n FilterNode, Stage n DistortionNode),
            (Stage n DistortionNode, Stage n GainNode)]
      else [(Stage n FilterNode, Stage n GainNode)]) @
     [(Stage n GainNode, Stage n MasterGain)] @
     (if effects_reverb (effects p) > 0
      then [(Stage n GainNode, Stage n ReverbNode),
            (Stage n ReverbNode, Stage n MasterGain)]
      else []) @
     (if effects_delay (effects p) > 0
      then [(Stage n GainNode, Stage n DelayNode),
            (Stage n DelayNode, Stage n DelayGain),
            (Stage n DelayGain, Stage n DelayNode),
            (Stage n DelayGain, Stage n MasterGain)]
      else []) @
     [(Stage n MasterGain, Destination)]"

text \<open>
  \<^verbatim>\<open>playNote\<close> returns at once without a context. Otherwise it calls \<^verbatim>\<open>stopNote\<close>
  (which keeps the context, so the inner \<open>None\<close> branch is never taken), creates and
  configures the nodes, connects them, stores the three refs and starts the
  oscillator.
\<close>

definition playNote :: "real \<Rightarrow> synth \<Rightarrow> synth" where
  "playNote frequency s0 =
     (case audioContextRef s0 of
        None \<Rightarrow> s0
      | Some _ \<Rightarrow>
          let s1 = stopNote s0 in
          (case audioContextRef s1 of
             None \<Rightarrow> s1
           | Some ctx \<Rightarrow>
               let p = params s1;
                   now = currentTime ctx;
                   n = length (voices ctx)
               in (case createImpulseResponse 2 (effects_reverb (effects p) * 10) s1 of
                     (impulse, s2) \<Rightarrow>
                       let v = configure_voice p frequency now impulse;
                           ctx' = ctx\<lparr> voices := voices ctx @ [v\<lparr>osc_start := Some now\<rparr>],
                                       connections := connections ctx @ connect_voice p n \<rparr>
                       in s2\<lparr> audioContextRef := Some ctx',
                              oscillatorRef := Some n, gainNodeRef := Some n,
                              filterNodeRef := Some n, isPlaying := True \<rparr>)))"

subsection \<open>The renderer and the events of a session\<close>

text \<open>
  The renderer reaching time \<open>t\<close>: \<^verbatim>\<open>currentTime\<close> becomes \<open>t\<close> and every parameter's
  current value is the value of its schedule at the start of the last rendered quantum,
  \<open>128 / sampleRate\<close> seconds before \<open>t\<close>.
\<close>

definition render_quantum :: "audioContext \<Rightarrow> real" where
  "render_quantum ctx = 128 / real (sampleRate ctx)"

definition render_voice :: "real \<Rightarrow> real \<Rightarrow> voice \<Rightarrow> voice" where
  "render_voice quantum t v =
     v\<lparr> osc_frequency := render_param quantum t (osc_frequency v),
        osc_detune := render_param quantum t (osc_detune v),
        filterNode_frequency := render_param quantum t (filterNode_frequency v),
        filterNode_Q := render_param quantum t (filterNode_Q v),
        gainNode_gain := render_param quantum t (gainNode_gain v),
        delayNode_delayTime := render_param quantum t (delayNode_delayTime v),
        delayGain_gain := render_param quantum t (delayGain_gain v),
        masterGain_gain := render_param quantum t (masterGain_gain v) \<rparr>"

definition render :: "real \<Rightarrow> synth \<Rightarrow> synth" where
  "render t s =
     (case audioContextRef s of
        None \<Rightarrow> s
      | Some ctx \<Rightarrow>
          s\<lparr>audioContextRef :=
               Some (ctx\<lparr>currentTime := t,
                         voices := map (render_voice (render_quantum ctx) t) (voices ctx)\<rparr>)\<rparr>)"

text \<open>
  The component after its mount effect has created the context, at render time \<open>0\<close>.
\<close>

definition mounted :: "nat \<Rightarrow> (nat \<Rightarrow> real) \<Rightarrow> synth" where
  "mounted rate rnd =
     \<lparr> params = defaultParams, isPlaying = False,
       audioContextRef =
         Some \<lparr> currentTime = 0, sampleRate = rate, voices = [], connections = [] \<rparr>,
       oscillatorRef = None, gainNodeRef = None, filterNodeRef = None,
       random_source = rnd, random_calls = 0 \<rparr>"

text \<open>
  What happens to a mounted component, one event at a time: a key goes down
  (\<^verbatim>\<open>onNoteOn\<close> is \<^verbatim>\<open>playNote\<close>) or up (\<^verbatim>\<open>onNoteOff\<close> is \<^verbatim>\<open>stopNote\<close>), a knob or a
  select calls \<^verbatim>\<open>updateParam\<close>, the volume knob sets the volume, a preset is loaded, or
  the render clock moves on.
\<close>

datatype input =
    NoteOn real
  | NoteOff
  | UpdateParam category string jsval
  | SetVolume real
  | LoadPreset preset
  | Render real

fun step :: "synth \<Rightarrow> input \<Rightarrow> synth" where
  "step s (NoteOn frequency) = playNote frequency s"
| "step s NoteOff = stopNote s"
| "step s (UpdateParam c param v) = s\<lparr>params := updateParam c param v (params s)\<rparr>"
| "step s (SetVolume v) = s\<lparr>params := setVolume v (params s)\<rparr>"
| "step s (LoadPreset p) = s\<lparr>params := loadPreset p\<rparr>"
| "step s (Render t) = render t s"

definition run :: "synth \<Rightarrow> input list \<Rightarrow> synth" where
  "run s ins = foldl step s ins"

text \<open>The voices whose master gain is connected to the destination.\<close>

definition wired_voices :: "(node \<times> node) list \<Rightarrow> nat list" where
  "wired_voices cs =
     [n. (a, b) \<leftarrow> cs, n \<leftarrow> (case a of Stage n MasterGain \<Rightarrow> [n] | _ \<Rightarrow> []),
         b = Destination]"

fun is_note_on :: "input \<Rightarrow> bool" where
  "is_note_on (NoteOn frequency) = True"
| "is_note_on _ = False"

text \<open>
  The three calls that \<^verbatim>\<open>stopNote\<close> makes on the gain parameter, in one: cancel, pin the
  current value at \<open>now\<close>, ramp to \<open>0\<close> at \<open>now + rel\<close>. And the two channels that
  \<^verbatim>\<open>createImpulseResponse(2, reverb * 10)\<close> fills for a component in state \<open>s\<close>.
\<close>

definition released :: "real \<Rightarrow> real \<Rightarrow> audioParam \<Rightarrow> audioParam" where
  "released now rel p =
     linearRampToValueAtTime 0 (now + rel)
       (setValueAtTime (param_value p) now (cancelScheduledValues now p))"

definition impulse_of :: "synth \<Rightarrow> audioContext \<Rightarrow> real list list" where
  "impulse_of s ctx =
     (let len = sampleRate ctx * 2; d = effects_reverb (effects (params s)) * 10 in
      [fst (sample_loop 0 len d (random_source s) (random_calls s) (replicate len 0)),
       fst (sample_loop 0 len d (random_source s) (random_calls s + len) (replicate len 0))])"

text \<open>What can be observed of the context of a component.\<close>

definition current_voices :: "synth \<Rightarrow> voice list" where
  "current_voices s = (case audioContextRef s of None \<Rightarrow> [] | Some ctx \<Rightarrow> voices ctx)"

definition current_connections :: "synth \<Rightarrow> (node \<times> node) list" where
  "current_connections s = (case audioContextRef s of None \<Rightarrow> [] | Some ctx \<Rightarrow> connections ctx)"

definition clock :: "synth \<Rightarrow> real" where
  "clock s = (case audioContextRef s of None \<Rightarrow> 0 | Some ctx \<Rightarrow> currentTime ctx)"

definition current_wired :: "synth \<Rightarrow> nat list" where
  "current_wired s = wired_voices (current_connections s)"

text \<open>A stream of random numbers for the examples: every call returns \<open>3/4\<close>.\<close>

definition example_random :: "nat \<Rightarrow> real" where
  "example_random k = 3 / 4"

declare curve_loop.simps [simp del] sample_loop.simps [simp del] channel_loop.simps [simp del]

section \<open>The loops of the curve generators\<close>

lemma curve_loop_length: "length (curve_loop i n a c) = length c"
proof (induction i n a c rule: curve_loop.induct)
  case (1 i samples amount curve)
  show ?case
  proof (cases "i < samples")
    case True
    with 1 show ?thesis by (subst curve_loop.simps) simp
  next
    case False
    then show ?thesis by (subst curve_loop.simps) simp
  qed
qed

lemma curve_loop_nth:
  "j < length c \<Longrightarrow>
   curve_loop i n a c ! j = (if i \<le> j \<and> j < n then distortion_sample a n j else c ! j)"
proof (induction i n a c rule: curve_loop.induct)
  case (1 i samples amount curve)
  show ?case
  proof (cases "i < samples")
    case True
    have "curve_loop i samples amount curve ! j =
          curve_loop (i + 1) samples amount (curve[i := distortion_sample amount samples i]) ! j"
      using True by (subst curve_loop.simps) simp
    also have "\<dots> = (if i + 1 \<le> j \<and> j < samples then distortion_sample amount samples j
                     else curve[i := distortion_sample amount samples i] ! j)"
      using 1 True by simp
    also have "\<dots> = (if i \<le> j \<and> j < samples then distortion_sample amount samples j else curve ! j)"
      using True "1.prems" by (cases "i = j") auto
    finally show ?thesis .
  next
    case False
    then show ?thesis by (subst curve_loop.simps) simp
  qed
qed

lemma createDistortionCurve_length: "length (createDistortionCurve a) = 44100"
  by (simp add: createDistortionCurve_def curve_loop_length)

lemma createDistortionCurve_nth:
  "i < 44100 \<Longrightarrow> createDistortionCurve a ! i = distortion_sample a 44100 i"
  by (simp add: createDistortionCurve_def curve_loop_nth)

lemma sample_loop_snd: "snd (sample_loop i len d rnd k c) = k + (len - i)"
proof (induction i len d rnd k c rule: sample_loop.induct)
  case (1 i len decay rnd k channelData)
  show ?case
  proof (cases "i < len")
    case True
    with 1 show ?thesis by (subst sample_loop.simps) simp
  next
    case False
    then show ?thesis by (subst sample_loop.simps) simp
  qed
qed

lemma sample_loop_length: "length (fst (sample_loop i len d rnd k c)) = length c"
proof (induction i len d rnd k c rule: sample_loop.induct)
  case (1 i len decay rnd k channelData)
  show ?case
  proof (cases "i < len")
    case True
    with 1 show ?thesis by (subst sample_loop.simps) simp
  next
    case False
    then show ?thesis by (subst sample_loop.simps) simp
  qed
qed

lemma sample_loop_nth:
  "j < length c \<Longrightarrow>
   fst (sample_loop i len d rnd k c) ! j =
     (if i \<le> j \<and> j < len then impulse_sample (rnd (k + (j - i))) d len j else c ! j)"
proof (induction i len d rnd k c rule: sample_loop.induct)
  case (1 i len decay rnd k channelData)
  show ?case
  proof (cases "i < len")
    case True
    let ?c' = "channelData[i := impulse_sample (rnd k) decay len i]"
    have "fst (sample_loop i len decay rnd k channelData) ! j =
          fst (sample_loop (i + 1) len decay rnd (k + 1) ?c') ! j"
      using True by (subst sample_loop.simps) simp
    also have "\<dots> = (if i + 1 \<le> j \<and> j < len
                     then impulse_sample (rnd (k + 1 + (j - (i + 1)))) decay len j else ?c' ! j)"
      using 1 True by simp
    also have "\<dots> = (if i \<le> j \<and> j < len
                     then impulse_sample (rnd (k + (j - i))) decay len j else channelData ! j)"
    proof (cases "i = j")
      case True
      with \<open>i < len\<close> "1.prems" show ?thesis by simp
    next
      case False
      have "i + 1 \<le> j \<Longrightarrow> k + 1 + (j - (i + 1)) = k + (j - i)" by arith
      with False "1.prems" show ?thesis by auto
    qed
    finally show ?thesis .
  next
    case False
    then show ?thesis by (subst sample_loop.simps) simp
  qed
qed

lemma channel_loop_buffer:
  "channel_loop 0 len d rnd k (createBuffer 2 len) =
     ([fst (sample_loop 0 len d rnd k (replicate len 0)),
       fst (sample_loop 0 len d rnd (k + len) (replicate len 0))], k + len + len)"
proof -
  let ?z = "replicate len (0::real)"
  obtain c0 k0 where s0: "sample_loop 0 len d rnd k ?z = (c0, k0)" by fastforce
  obtain c1 k1 where s1: "sample_loop 0 len d rnd k0 ?z = (c1, k1)" by fastforce
  have k0: "k0 = k + len" using sample_loop_snd[of 0 len d rnd k ?z] s0 by simp
  have k1: "k1 = k + len + len" using sample_loop_snd[of 0 len d rnd k0 ?z] s1 k0 by simp
  have b: "createBuffer 2 len = [?z, ?z]" by (simp add: createBuffer_def numeral_2_eq_2)
  have "channel_loop 0 len d rnd k [?z, ?z] = channel_loop (0 + 1) len d rnd k0 [c0, ?z]"
    by (subst channel_loop.simps) (simp add: s0)
  also have "\<dots> = channel_loop (1 + 1) len d rnd k1 [c0, c1]"
    by (subst channel_loop.simps) (simp add: s1)
  also have "\<dots> = ([c0, c1], k1)"
    by (subst channel_loop.simps) simp
  finally show ?thesis using s0 s1 k0 k1 b by simp
qed

section \<open>What stopNote and playNote do to the state\<close>

lemma modify_voice_length: "length (modify_voice n f vs) = length vs"
  by (simp add: modify_voice_def)

lemma modify_voice_nth:
  "i < length vs \<Longrightarrow> modify_voice n f vs ! i = (if i = n then f (vs ! i) else vs ! i)"
  by (simp add: modify_voice_def)

lemma modify_voice_twice:
  "modify_voice n f (modify_voice n g vs) = modify_voice n (\<lambda>v. f (g v)) vs"
  by (simp add: modify_voice_def)

lemma stopNote_idle:
  "oscillatorRef s = None \<or> gainNodeRef s = None \<or> audioContextRef s = None \<Longrightarrow> stopNote s = s"
  by (auto simp: stopNote_def split: option.splits)

lemma stopNote_active:
  assumes "oscillatorRef s = Some osc" "gainNodeRef s = Some g" "audioContextRef s = Some ctx"
  shows "stopNote s =
     s\<lparr> audioContextRef :=
          Some (ctx\<lparr>voices :=
            modify_voice osc
              (\<lambda>v. v\<lparr>osc_stop := Some (currentTime ctx + envelope_release (envelope (params s)))\<rparr>)
              (modify_voice g
                 (\<lambda>v. v\<lparr>gainNode_gain :=
                     released (currentTime ctx) (envelope_release (envelope (params s)))
                       (gainNode_gain v)\<rparr>)
                 (voices ctx))\<rparr>),
        oscillatorRef := None, gainNodeRef := None, filterNodeRef := None,
        isPlaying := False \<rparr>"
  using assms
  by (simp add: stopNote_def Let_def modify_voice_twice released_def cancelScheduledValues_def)

lemma stopNote_params:
  "params (stopNote s) = params s"
  "random_source (stopNote s) = random_source s"
  "random_calls (stopNote s) = random_calls s"
  by (auto simp: stopNote_def Let_def split: option.splits)

lemma stopNote_refs:
  "audioContextRef s \<noteq> None \<Longrightarrow> oscillatorRef (stopNote s) = None \<or> gainNodeRef (stopNote s) = None"
  by (auto simp: stopNote_def Let_def split: option.splits)

lemma stopNote_context:
  assumes "audioContextRef s = Some ctx"
  shows "audioContextRef (stopNote s) = Some (ctx\<lparr>voices := current_voices (stopNote s)\<rparr>)"
    and "length (current_voices (stopNote s)) = length (voices ctx)"
    and "current_connections (stopNote s) = connections ctx"
    and "clock (stopNote s) = currentTime ctx"
  using assms
  by (auto simp: stopNote_def Let_def current_voices_def current_connections_def clock_def
      modify_voice_length split: option.splits)

lemma createImpulseResponse_context:
  assumes "audioContextRef s = Some ctx"
  shows "createImpulseResponse duration d s =
     (Some [fst (sample_loop 0 (sampleRate ctx * duration) d (random_source s) (random_calls s)
                   (replicate (sampleRate ctx * duration) 0)),
            fst (sample_loop 0 (sampleRate ctx * duration) d (random_source s)
                   (random_calls s + sampleRate ctx * duration)
                   (replicate (sampleRate ctx * duration) 0))],
      s\<lparr>random_calls := random_calls s + sampleRate ctx * duration + sampleRate ctx * duration\<rparr>)"
  using assms by (simp add: createImpulseResponse_def Let_def channel_loop_buffer)

lemma playNote_no_context: "audioContextRef s = None \<Longrightarrow> playNote f s = s"
  by (simp add: playNote_def)

lemma playNote_context:
  assumes "audioContextRef s = Some ctx"
  shows "playNote f s =
     (stopNote s)\<lparr>
        random_calls := random_calls s + sampleRate ctx * 2 + sampleRate ctx * 2,
        audioContextRef := Some (ctx\<lparr>
           voices := current_voices (stopNote s) @
             [(configure_voice (params s) f (currentTime ctx) (Some (impulse_of s ctx)))
                \<lparr>osc_start := Some (currentTime ctx)\<rparr>],
           connections := connections ctx @ connect_voice (params s) (length (voices ctx))\<rparr>),
        oscillatorRef := Some (length (voices ctx)),
        gainNodeRef := Some (length (voices ctx)),
        filterNodeRef := Some (length (voices ctx)),
        isPlaying := True\<rparr>"
proof -
  let ?s1 = "stopNote s"
  let ?ctx1 = "ctx\<lparr>voices := current_voices ?s1\<rparr>"
  have c1: "audioContextRef ?s1 = Some ?ctx1" using assms by (rule stopNote_context)
  have l1: "length (current_voices ?s1) = length (voices ctx)" using assms by (rule stopNote_context)
  have imp: "createImpulseResponse 2 (effects_reverb (effects (params s)) * 10) ?s1 =
      (Some (impulse_of s ctx),
       ?s1\<lparr>random_calls := random_calls s + sampleRate ctx * 2 + sampleRate ctx * 2\<rparr>)"
    by (simp add: createImpulseResponse_context[OF c1] stopNote_params impulse_of_def Let_def)
  show ?thesis
    by (simp add: playNote_def assms c1 Let_def stopNote_params imp l1)
qed

lemma playNote_new_voice:
  assumes "audioContextRef s = Some ctx"
  shows "last (current_voices (playNote f s)) =
           (configure_voice (params s) f (currentTime ctx) (Some (impulse_of s ctx)))
              \<lparr>osc_start := Some (currentTime ctx)\<rparr>"
    and "current_voices (playNote f s) = current_voices (stopNote s) @
           [(configure_voice (params s) f (currentTime ctx) (Some (impulse_of s ctx)))
              \<lparr>osc_start := Some (currentTime ctx)\<rparr>]"
    and "current_connections (playNote f s) =
           connections ctx @ connect_voice (params s) (length (voices ctx))"
    and "oscillatorRef (playNote f s) = Some (length (voices ctx))"
    and "gainNodeRef (playNote f s) = Some (length (voices ctx))"
    and "filterNodeRef (playNote f s) = Some (length (voices ctx))"
    and "params (playNote f s) = params s"
    and "clock (playNote f s) = currentTime ctx"
    and "isPlaying (playNote f s)"
  by (simp_all add: playNote_context[OF assms] current_voices_def current_connections_def
      clock_def stopNote_params)

lemma mounted_context:
  "audioContextRef (mounted rate rnd) =
     Some \<lparr> currentTime = 0, sampleRate = rate, voices = [], connections = [] \<rparr>"
  by (simp add: mounted_def)

section \<open>Automation, rendering and sessions\<close>

lemma insert_event_append:
  "\<forall>x\<in>set es. event_time x \<le> event_time e \<Longrightarrow> insert_event e es = es @ [e]"
  by (induction es) auto

lemma automation_append:
  "\<forall>e\<in>set es. event_time e \<le> t \<Longrightarrow>
   automation v0 t0 (es @ fs) t =
     (if es = [] then automation v0 t0 fs t
      else automation (event_value (last es)) (event_time (last es)) fs t)"
proof (induction es arbitrary: v0 t0)
  case Nil
  then show ?case by simp
next
  case (Cons e es)
  then show ?case by (cases e) auto
qed

lemma value_at_after:
  assumes es: "\<forall>e\<in>set es. event_time e \<le> t" and t: "t1 \<le> t"
    and p: "param_events p = es @ SetValue v1 t1 # fs"
  shows "value_at p t = automation v1 t1 fs t"
proof (cases es)
  case Nil
  with p t show ?thesis by (simp add: value_at_def)
next
  case (Cons e es')
  have "value_at p t = automation (event_value e) (event_time e) (es' @ SetValue v1 t1 # fs) t"
    using p Cons es by (simp add: value_at_def)
  also have "\<dots> = automation v1 t1 fs t"
    using es Cons t by (subst automation_append) auto
  finally show ?thesis .
qed

lemma released_events:
  assumes "0 \<le> rel"
  shows "param_events (released now rel p) =
           filter (\<lambda>e. event_time e < now) (param_events p)
             @ [SetValue (param_value p) now, LinearRamp 0 (now + rel)]"
    and "param_value (released now rel p) = param_value p"
proof -
  let ?es = "filter (\<lambda>e. event_time e < now) (param_events p)"
  have 1: "insert_event (SetValue (param_value p) now) ?es = ?es @ [SetValue (param_value p) now]"
    by (rule insert_event_append) auto
  have 2: "insert_event (LinearRamp 0 (now + rel)) (?es @ [SetValue (param_value p) now])
           = (?es @ [SetValue (param_value p) now]) @ [LinearRamp 0 (now + rel)]"
    using assms by (intro insert_event_append) auto
  show "param_events (released now rel p) =
           ?es @ [SetValue (param_value p) now, LinearRamp 0 (now + rel)]"
    by (simp add: released_def linearRampToValueAtTime_def setValueAtTime_def
        cancelScheduledValues_def 1 2)
  show "param_value (released now rel p) = param_value p"
    by (simp add: released_def linearRampToValueAtTime_def setValueAtTime_def
        cancelScheduledValues_def)
qed

lemma released_value:
  assumes rel: "0 < rel" and t: "now \<le> t"
  shows "value_at (released now rel p) t =
           (if t < now + rel then param_value p * (1 - (t - now) / rel) else 0)"
proof -
  let ?es = "filter (\<lambda>e. event_time e < now) (param_events p)"
  have ev: "param_events (released now rel p) =
           ?es @ SetValue (param_value p) now # [LinearRamp 0 (now + rel)]"
    using rel by (simp add: released_events)
  have "\<forall>e\<in>set ?es. event_time e \<le> t" using t by auto
  from value_at_after [OF this t ev]
  have "value_at (released now rel p) t = automation (param_value p) now [LinearRamp 0 (now + rel)] t" .
  also have "\<dots> = (if t < now + rel then param_value p * (1 - (t - now) / rel) else 0)"
    using rel by (simp add: field_simps)
  finally show ?thesis .
qed

lemma envelope_events:
  assumes "0 \<le> a" "0 \<le> d"
  shows "param_events (linearRampToValueAtTime v2 (t0 + a + d)
            (linearRampToValueAtTime v1 (t0 + a) (setValueAtTime 0 t0 (new_param 1)))) =
          [SetValue 0 t0, LinearRamp v1 (t0 + a), LinearRamp v2 (t0 + a + d)]"
  using assms by (simp add: linearRampToValueAtTime_def setValueAtTime_def new_param_def)

lemma envelope_value:
  assumes a: "0 < a" and d: "0 < d" and t: "t0 \<le> t"
    and p: "param_events p = [SetValue 0 t0, LinearRamp v1 (t0 + a), LinearRamp v2 (t0 + a + d)]"
  shows "value_at p t =
     (if t < t0 + a then v1 * ((t - t0) / a)
      else if t < t0 + a + d then v1 + (v2 - v1) * ((t - (t0 + a)) / d)
      else v2)"
  using assms by (simp add: value_at_def)

lemma render_context:
  assumes "audioContextRef s = Some ctx"
  shows "audioContextRef (render t s) =
           Some (ctx\<lparr>currentTime := t,
                     voices := map (render_voice (render_quantum ctx) t) (voices ctx)\<rparr>)"
    and "current_voices (render t s) = map (render_voice (render_quantum ctx) t) (voices ctx)"
    and "current_connections (render t s) = connections ctx"
    and "clock (render t s) = t"
  using assms by (simp_all add: render_def current_voices_def current_connections_def clock_def)

lemma render_frame:
  "params (render t s) = params s" "oscillatorRef (render t s) = oscillatorRef s"
  "gainNodeRef (render t s) = gainNodeRef s" "filterNodeRef (render t s) = filterNodeRef s"
  "random_calls (render t s) = random_calls s" "random_source (render t s) = random_source s"
  by (simp_all add: render_def split: option.splits)

lemma render_voice_gain:
  "gainNode_gain (render_voice q t v) =
     (gainNode_gain v)\<lparr>param_value := value_at (gainNode_gain v) (t - q)\<rparr>"
  by (simp add: render_voice_def render_param_def)

lemma playNote_sampleRate:
  assumes "audioContextRef s = Some ctx" and "audioContextRef (playNote f s) = Some ctx'"
  shows "sampleRate ctx' = sampleRate ctx"
  using assms(2) by (auto simp: playNote_context[OF assms(1)])


lemma playNote_nonempty:
  assumes "audioContextRef s = Some ctx"
  shows "current_voices (playNote f s) \<noteq> []"
  by (simp add: playNote_new_voice(2)[OF assms])

lemma mounted_params: "params (mounted rate rnd) = defaultParams"
  by (simp add: mounted_def)

lemma stopNote_active_voices:
  assumes "oscillatorRef s = Some osc" "gainNodeRef s = Some g" "audioContextRef s = Some ctx"
  shows "current_voices (stopNote s) =
            modify_voice osc
              (\<lambda>v. v\<lparr>osc_stop := Some (currentTime ctx + envelope_release (envelope (params s)))\<rparr>)
              (modify_voice g
                 (\<lambda>v. v\<lparr>gainNode_gain :=
                     released (currentTime ctx) (envelope_release (envelope (params s)))
                       (gainNode_gain v)\<rparr>)
                 (voices ctx))"
  by (simp add: stopNote_active[OF assms] current_voices_def)

lemma stopNote_gain:
  assumes "oscillatorRef s = Some osc" "gainNodeRef s = Some g" "audioContextRef s = Some ctx"
    and "g < length (voices ctx)"
  shows "gainNode_gain (current_voices (stopNote s) ! g) =
           released (currentTime ctx) (envelope_release (envelope (params s)))
             (gainNode_gain (voices ctx ! g))"
  using assms(4)
  by (simp add: stopNote_active_voices[OF assms(1-3)] modify_voice_nth modify_voice_length)

lemma stopNote_osc_stop:
  assumes "oscillatorRef s = Some osc" "gainNodeRef s = Some g" "audioContextRef s = Some ctx"
    and "osc < length (voices ctx)"
  shows "osc_stop (current_voices (stopNote s) ! osc) =
           Some (currentTime ctx + envelope_release (envelope (params s)))"
  using assms(4)
  by (simp add: stopNote_active_voices[OF assms(1-3)] modify_voice_nth modify_voice_length)

lemma playNote_gain:
  assumes ctx: "audioContextRef s = Some ctx"
    and a: "0 \<le> envelope_attack (envelope (params s))"
    and d: "0 \<le> envelope_decay (envelope (params s))"
  shows "param_events (gainNode_gain (last (current_voices (playNote f s)))) =
       [SetValue 0 (currentTime ctx),
        LinearRamp (volume (params s))
          (currentTime ctx + envelope_attack (envelope (params s))),
        LinearRamp (volume (params s) * envelope_sustain (envelope (params s)))
          (currentTime ctx + envelope_attack (envelope (params s))
             + envelope_decay (envelope (params s)))]"
proof -
  have "gainNode_gain (last (current_voices (playNote f s))) =
      linearRampToValueAtTime (volume (params s) * envelope_sustain (envelope (params s)))
        (currentTime ctx + envelope_attack (envelope (params s))
           + envelope_decay (envelope (params s)))
        (linearRampToValueAtTime (volume (params s))
           (currentTime ctx + envelope_attack (envelope (params s)))
           (setValueAtTime 0 (currentTime ctx) (new_param 1)))"
    by (simp add: playNote_new_voice(1)[OF ctx] configure_voice_def)
  then show ?thesis using a d by (simp only: envelope_events)
qed

lemma note_on_render:
  assumes ctx: "audioContextRef s = Some ctx"
  shows "\<exists>ctx2. audioContextRef (render t (playNote f s)) = Some ctx2 \<and>
           currentTime ctx2 = t \<and> length (voices ctx2) = length (voices ctx) + 1 \<and>
           sampleRate ctx2 = sampleRate ctx \<and>
           gainNode_gain (voices ctx2 ! length (voices ctx)) =
             (gainNode_gain (last (current_voices (playNote f s))))
               \<lparr>param_value :=
                  value_at (gainNode_gain (last (current_voices (playNote f s))))
                    (t - 128 / real (sampleRate ctx))\<rparr>"
    and "oscillatorRef (render t (playNote f s)) = Some (length (voices ctx))"
    and "gainNodeRef (render t (playNote f s)) = Some (length (voices ctx))"
    and "params (render t (playNote f s)) = params s"
proof -
  obtain ctx1 where c1: "audioContextRef (playNote f s) = Some ctx1"
    by (simp add: playNote_context[OF ctx])
  then have v1: "current_voices (playNote f s) = voices ctx1"
    by (simp add: current_voices_def)
  have sr: "sampleRate ctx1 = sampleRate ctx" using ctx c1 by (rule playNote_sampleRate)
  have l1: "length (voices ctx1) = length (voices ctx) + 1"
    using playNote_new_voice(2)[OF ctx, of f] stopNote_context(2)[OF ctx]
    by (simp add: v1[symmetric])
  then have ne: "voices ctx1 \<noteq> []" by auto
  let ?q = "render_quantum ctx1"
  let ?ctx2 = "ctx1\<lparr>currentTime := t, voices := map (render_voice ?q t) (voices ctx1)\<rparr>"
  have q: "?q = 128 / real (sampleRate ctx)" by (simp add: render_quantum_def sr)
  have c2: "audioContextRef (render t (playNote f s)) = Some ?ctx2"
    using c1 by (rule render_context)
  have "voices ?ctx2 ! length (voices ctx) = render_voice ?q t (last (voices ctx1))"
    using l1 ne by (simp add: last_conv_nth)
  then have "gainNode_gain (voices ?ctx2 ! length (voices ctx)) =
             (gainNode_gain (last (current_voices (playNote f s))))
               \<lparr>param_value :=
                  value_at (gainNode_gain (last (current_voices (playNote f s))))
                    (t - 128 / real (sampleRate ctx))\<rparr>"
    by (simp only: render_voice_gain v1 q)
  with c2 l1 sr show "\<exists>ctx2. audioContextRef (render t (playNote f s)) = Some ctx2 \<and>
           currentTime ctx2 = t \<and> length (voices ctx2) = length (voices ctx) + 1 \<and>
           sampleRate ctx2 = sampleRate ctx \<and>
           gainNode_gain (voices ctx2 ! length (voices ctx)) =
             (gainNode_gain (last (current_voices (playNote f s))))
               \<lparr>param_value :=
                  value_at (gainNode_gain (last (current_voices (playNote f s))))
                    (t - 128 / real (sampleRate ctx))\<rparr>"
    by (intro exI[of _ ?ctx2]) simp
  show "oscillatorRef (render t (playNote f s)) = Some (length (voices ctx))"
    "gainNodeRef (render t (playNote f s)) = Some (length (voices ctx))"
    "params (render t (playNote f s)) = params s"
    by (simp_all add: render_frame playNote_new_voice[OF ctx])
qed

lemma wired_voices_append: "wired_voices (xs @ ys) = wired_voices xs @ wired_voices ys"
  by (simp add: wired_voices_def)

lemma wired_voices_connect: "wired_voices (connect_voice p n) = [n]"
  by (simp add: wired_voices_def connect_voice_def)

lemma run_snoc: "run s (ins @ [x]) = step (run s ins) x"
  by (simp add: run_def)

lemma stopNote_refs_cases:
  "stopNote s = s \<or>
   (oscillatorRef (stopNote s) = None \<and> gainNodeRef (stopNote s) = None \<and>
    filterNodeRef (stopNote s) = None)"
  by (auto simp: stopNote_def Let_def split: option.splits)

lemma run_invariant:
  "\<exists>ctx. audioContextRef (run (mounted rate rnd) ins) = Some ctx \<and>
     wired_voices (connections ctx) = [0..<length (voices ctx)] \<and>
     length (voices ctx) = length (filter is_note_on ins) \<and>
     gainNodeRef (run (mounted rate rnd) ins) = oscillatorRef (run (mounted rate rnd) ins) \<and>
     (\<forall>osc. oscillatorRef (run (mounted rate rnd) ins) = Some osc \<longrightarrow> osc < length (voices ctx))"
proof (induction ins rule: rev_induct)
  case Nil
  show ?case by (simp add: run_def mounted_def wired_voices_def)
next
  case (snoc x ins)
  let ?s = "run (mounted rate rnd) ins"
  from snoc obtain ctx where ctx: "audioContextRef ?s = Some ctx"
    and w: "wired_voices (connections ctx) = [0..<length (voices ctx)]"
    and l: "length (voices ctx) = length (filter is_note_on ins)"
    and r: "gainNodeRef ?s = oscillatorRef ?s"
    and o: "\<forall>osc. oscillatorRef ?s = Some osc \<longrightarrow> osc < length (voices ctx)"
    by blast
  show ?case
  proof (cases x)
    case (NoteOn f)
    obtain ctx' where c': "audioContextRef (playNote f ?s) = Some ctx'"
      by (simp add: playNote_context[OF ctx])
    have v: "voices ctx' = current_voices (playNote f ?s)"
      and c: "connections ctx' = current_connections (playNote f ?s)"
      using c' by (simp_all add: current_voices_def current_connections_def)
    have lv: "length (voices ctx') = length (voices ctx) + 1"
      unfolding v by (simp add: playNote_new_voice(2)[OF ctx] stopNote_context(2)[OF ctx])
    have wc: "wired_voices (connections ctx') = [0..<length (voices ctx')]"
      unfolding c lv
      by (simp add: playNote_new_voice(3)[OF ctx] wired_voices_append wired_voices_connect w)
    show ?thesis
      using c' wc lv l NoteOn
      by (simp add: run_snoc playNote_new_voice(4,5)[OF ctx])
  next
    case NoteOff
    have c': "audioContextRef (stopNote ?s) = Some (ctx\<lparr>voices := current_voices (stopNote ?s)\<rparr>)"
      using ctx by (rule stopNote_context)
    have lv: "length (current_voices (stopNote ?s)) = length (voices ctx)"
      using ctx by (rule stopNote_context)
    from stopNote_refs_cases [of ?s]
    have "gainNodeRef (stopNote ?s) = oscillatorRef (stopNote ?s) \<and>
        (\<forall>osc. oscillatorRef (stopNote ?s) = Some osc \<longrightarrow> osc < length (voices ctx))"
      using r o by auto
    then show ?thesis
      using c' lv w l NoteOff by (simp add: run_snoc)
  next
    case (UpdateParam c param v)
    then show ?thesis using ctx w l r o by (simp add: run_snoc)
  next
    case (SetVolume v)
    then show ?thesis using ctx w l r o by (simp add: run_snoc)
  next
    case (LoadPreset p)
    then show ?thesis using ctx w l r o by (simp add: run_snoc)
  next
    case (Render t)
    then show ?thesis using ctx w l r o
      by (simp add: run_snoc render_context(1)[OF ctx] render_frame)
  qed
qed

lemma playNote_old_voice:
  assumes ctx: "audioContextRef s = Some ctx" and osc: "oscillatorRef s = Some osc"
    and g: "gainNodeRef s = Some osc" and lo: "osc < length (voices ctx)"
  shows "osc_stop (current_voices (playNote f s) ! osc) =
           Some (currentTime ctx + envelope_release (envelope (params s)))"
    and "gainNode_gain (current_voices (playNote f s) ! osc) =
           released (currentTime ctx) (envelope_release (envelope (params s)))
             (gainNode_gain (voices ctx ! osc))"
proof -
  have l: "osc < length (current_voices (stopNote s))"
    using lo by (simp add: stopNote_context(2)[OF ctx])
  then have n: "current_voices (playNote f s) ! osc = current_voices (stopNote s) ! osc"
    by (simp add: playNote_new_voice(2)[OF ctx] nth_append)
  show "osc_stop (current_voices (playNote f s) ! osc) =
           Some (currentTime ctx + envelope_release (envelope (params s)))"
    unfolding n using osc g ctx lo by (rule stopNote_osc_stop)
  show "gainNode_gain (current_voices (playNote f s) ! osc) =
           released (currentTime ctx) (envelope_release (envelope (params s)))
             (gainNode_gain (voices ctx ! osc))"
    unfolding n using osc g ctx lo by (rule stopNote_gain)
qed

lemma run_observed:
  "current_wired (run (mounted rate rnd) ins) = [0..<length (filter is_note_on ins)]"
  "length (current_voices (run (mounted rate rnd) ins)) = length (filter is_note_on ins)"
  using run_invariant [of rate rnd ins]
  by (auto simp: current_wired_def current_connections_def current_voices_def)

lemma first_note_rendered:
  fixes t :: real
  defines "s \<equiv> render t (playNote 440 (mounted 44100 example_random))"
  assumes t: "0.4 \<le> t - 128 / 44100"
  shows "\<exists>ctx. audioContextRef s = Some ctx \<and> currentTime ctx = t \<and> length (voices ctx) = 1 \<and>
           param_value (gainNode_gain (voices ctx ! 0)) = 0.35 \<and>
           param_events (gainNode_gain (voices ctx ! 0)) =
             [SetValue 0 0, LinearRamp 0.5 0.1, LinearRamp 0.35 0.4]"
    and "oscillatorRef s = Some 0" and "gainNodeRef s = Some 0" and "params s = defaultParams"
proof -
  let ?m = "mounted 44100 example_random"
  let ?g = "gainNode_gain (last (current_voices (playNote 440 ?m)))"
  have p: "envelope_attack (envelope (params ?m)) = 0.1" "envelope_decay (envelope (params ?m)) = 0.3"
    "envelope_sustain (envelope (params ?m)) = 0.7" "volume (params ?m) = 0.5"
    by (simp_all add: mounted_params defaultParams_def)
  have c0: "audioContextRef ?m =
      Some \<lparr> currentTime = 0, sampleRate = 44100, voices = [], connections = [] \<rparr>"
    by (rule mounted_context)
  have ev: "param_events ?g = [SetValue 0 0, LinearRamp 0.5 0.1, LinearRamp 0.35 0.4]"
    using playNote_gain [OF c0, where f = 440] by (simp add: p)
  have val: "value_at ?g (t - 128 / 44100) = 0.35"
    using t by (simp add: value_at_def ev)
  from note_on_render(1) [OF c0, where t = t and f = 440] obtain ctx where
    c: "audioContextRef s = Some ctx" "currentTime ctx = t" "length (voices ctx) = 1"
    and gain: "gainNode_gain (voices ctx ! 0) =
      ?g\<lparr>param_value := value_at ?g (t - 128 / real (sampleRate
         \<lparr> currentTime = 0, sampleRate = 44100, voices = [], connections = [] \<rparr>))\<rparr>"
    unfolding s_def by auto
  have "param_value (gainNode_gain (voices ctx ! 0)) = 0.35"
    using val by (simp add: gain)
  moreover have "param_events (gainNode_gain (voices ctx ! 0)) =
             [SetValue 0 0, LinearRamp 0.5 0.1, LinearRamp 0.35 0.4]"
    by (simp add: gain ev)
  ultimately
  show "\<exists>ctx. audioContextRef s = Some ctx \<and> currentTime ctx = t \<and> length (voices ctx) = 1 \<and>
           param_value (gainNode_gain (voices ctx ! 0)) = 0.35 \<and>
           param_events (gainNode_gain (voices ctx ! 0)) =
             [SetValue 0 0, LinearRamp 0.5 0.1, LinearRamp 0.35 0.4]"
    using c by blast
  show "oscillatorRef s = Some 0" "gainNodeRef s = Some 0" "params s = defaultParams"
    unfolding s_def
    using note_on_render(2,3,4) [OF c0, where t = t and f = 440]
    by (simp_all add: mounted_params)
qed

lemma stopNote_only_release:
  assumes "envelope_release (envelope p') = envelope_release (envelope (params s))"
  shows "current_voices (stopNote (s\<lparr>params := p'\<rparr>)) = current_voices (stopNote s)"
  using assms
  by (auto simp: stopNote_def Let_def current_voices_def split: option.splits)

section \<open>The envelope scheduled at note-on\<close>

text \<open>
  Claim C3: for a note-on at time \<open>t0\<close> with positive attack and decay, the events
  scheduled on the gain of the new voice are: value \<open>0\<close> at \<open>t0\<close>, a linear ramp to
  \<open>volume\<close> ending at \<open>t0 + attack\<close>, a linear ramp to \<open>volume * sustain\<close> ending at
  \<open>t0 + attack + decay\<close>. The gain is therefore \<open>0\<close> at \<open>t0\<close>, exactly \<open>volume\<close> at
  \<open>t0 + attack\<close>, linear in between, exactly \<open>volume * sustain\<close> from
  \<open>t0 + attack + decay\<close> on. When the renderer has reached a time \<open>t\<close>, the value getter
  of the gain returns the value of this schedule at the start of the last rendered
  quantum, \<open>t - 128 / sampleRate\<close>.
\<close>

theorem envelope_schedule:
  assumes ctx: "audioContextRef s = Some ctx"
    and a: "0 < envelope_attack (envelope (params s))"
    and d: "0 < envelope_decay (envelope (params s))"
  shows
    "param_events (gainNode_gain (last (current_voices (playNote f s)))) =
       [SetValue 0 (currentTime ctx),
        LinearRamp (volume (params s))
          (currentTime ctx + envelope_attack (envelope (params s))),
        LinearRamp (volume (params s) * envelope_sustain (envelope (params s)))
          (currentTime ctx + envelope_attack (envelope (params s))
             + envelope_decay (envelope (params s)))] \<and>
     value_at (gainNode_gain (last (current_voices (playNote f s)))) (currentTime ctx) = 0 \<and>
     value_at (gainNode_gain (last (current_voices (playNote f s))))
       (currentTime ctx + envelope_attack (envelope (params s))) = volume (params s) \<and>
     (\<forall>t. currentTime ctx \<le> t \<and> t \<le> currentTime ctx + envelope_attack (envelope (params s)) \<longrightarrow>
        value_at (gainNode_gain (last (current_voices (playNote f s)))) t =
          volume (params s) * ((t - currentTime ctx) / envelope_attack (envelope (params s)))) \<and>
     (\<forall>t. currentTime ctx + envelope_attack (envelope (params s)) \<le> t \<and>
          t \<le> currentTime ctx + envelope_attack (envelope (params s))
                + envelope_decay (envelope (params s)) \<longrightarrow>
        value_at (gainNode_gain (last (current_voices (playNote f s)))) t =
          volume (params s) +
          (volume (params s) * envelope_sustain (envelope (params s)) - volume (params s)) *
            ((t - (currentTime ctx + envelope_attack (envelope (params s))))
               / envelope_decay (envelope (params s)))) \<and>
     (\<forall>t. currentTime ctx + envelope_attack (envelope (params s))
            + envelope_decay (envelope (params s)) \<le> t \<longrightarrow>
        value_at (gainNode_gain (last (current_voices (playNote f s)))) t =
          volume (params s) * envelope_sustain (envelope (params s))) \<and>
     (\<forall>t. currentTime ctx \<le> t \<longrightarrow>
        param_value (gainNode_gain (last (current_voices (render t (playNote f s))))) =
          value_at (gainNode_gain (last (current_voices (playNote f s))))
            (t - 128 / real (sampleRate ctx)))"
proof -
  let ?t0 = "currentTime ctx" and ?a = "envelope_attack (envelope (params s))"
  let ?d = "envelope_decay (envelope (params s))" and ?v = "volume (params s)"
  let ?w = "volume (params s) * envelope_sustain (envelope (params s))"
  let ?g = "gainNode_gain (last (current_voices (playNote f s)))"
  have g: "?g = linearRampToValueAtTime ?w (?t0 + ?a + ?d)
                  (linearRampToValueAtTime ?v (?t0 + ?a) (setValueAtTime 0 ?t0 (new_param 1)))"
    by (simp add: playNote_new_voice(1)[OF ctx] configure_voice_def)
  have ev: "param_events ?g = [SetValue 0 ?t0, LinearRamp ?v (?t0 + ?a), LinearRamp ?w (?t0 + ?a + ?d)]"
    unfolding g using a d by (intro envelope_events) simp_all
  note val = envelope_value [OF a d _ ev]
  have 1: "value_at ?g ?t0 = 0" using a by (simp add: val)
  have 2: "value_at ?g (?t0 + ?a) = ?v" using a d by (simp add: val)
  have 3: "value_at ?g t = ?v * ((t - ?t0) / ?a)" if "?t0 \<le> t \<and> t \<le> ?t0 + ?a" for t
  proof (cases "t < ?t0 + ?a")
    case True
    with that show ?thesis by (simp add: val)
  next
    case False
    with that have "t = ?t0 + ?a" by simp
    with 2 a show ?thesis by simp
  qed
  have 4: "value_at ?g t = ?v + (?w - ?v) * ((t - (?t0 + ?a)) / ?d)"
    if "?t0 + ?a \<le> t \<and> t \<le> ?t0 + ?a + ?d" for t
  proof (cases "t < ?t0 + ?a + ?d")
    case True
    with that a show ?thesis by (simp add: val)
  next
    case False
    with that have "t = ?t0 + ?a + ?d" by simp
    with a d show ?thesis by (simp add: val)
  qed
  have 5: "value_at ?g t = ?w" if "?t0 + ?a + ?d \<le> t" for t
    using that a d by (simp add: val)
  obtain ctx' where c': "audioContextRef (playNote f s) = Some ctx'"
    by (simp add: playNote_context[OF ctx])
  have ne: "voices ctx' \<noteq> []"
    using playNote_nonempty[OF ctx, of f] c' by (simp add: current_voices_def)
  have 6: "param_value (gainNode_gain (last (current_voices (render t (playNote f s))))) =
          value_at ?g (t - 128 / real (sampleRate ctx))" for t
  proof -
    have "current_voices (render t (playNote f s)) =
        map (render_voice (render_quantum ctx') t) (voices ctx')"
      using c' by (rule render_context)
    moreover have "current_voices (playNote f s) = voices ctx'"
      using c' by (simp add: current_voices_def)
    moreover have "render_quantum ctx' = 128 / real (sampleRate ctx)"
      using playNote_sampleRate [OF ctx c'] by (simp add: render_quantum_def)
    ultimately show ?thesis using ne by (simp add: last_map render_voice_gain)
  qed
  from ev 1 2 3 4 5 6 show ?thesis by blast
qed

theorem envelope_schedule_witness:
  "value_at (gainNode_gain (last (current_voices (playNote 440 (mounted 44100 example_random))))) 0
     = 0 \<and>
   value_at (gainNode_gain (last (current_voices (playNote 440 (mounted 44100 example_random)))))
     0.1 = 0.5 \<and>
   value_at (gainNode_gain (last (current_voices (playNote 440 (mounted 44100 example_random)))))
     0.4 = 0.35 \<and>
   value_at (gainNode_gain (last (current_voices (playNote 440 (mounted 44100 example_random)))))
     10 = 0.35 \<and>
   param_events
     (gainNode_gain (last (current_voices (playNote 440 (mounted 44100 example_random))))) =
     [SetValue 0 0, LinearRamp 0.5 0.1, LinearRamp 0.35 0.4]"
proof -
  let ?ctx = "\<lparr> currentTime = 0, sampleRate = 44100, voices = [], connections = [] \<rparr>"
  let ?s = "mounted 44100 example_random"
  have c: "audioContextRef ?s = Some ?ctx" by (rule mounted_context)
  have p: "envelope_attack (envelope (params ?s)) = 0.1" "envelope_decay (envelope (params ?s)) = 0.3"
    "envelope_sustain (envelope (params ?s)) = 0.7" "volume (params ?s) = 0.5"
    by (simp_all add: mounted_params defaultParams_def)
  have a: "0 < envelope_attack (envelope (params ?s))" and d: "0 < envelope_decay (envelope (params ?s))"
    by (simp_all add: p)
  note T = envelope_schedule [OF c a d, where f = 440, unfolded p]
  have 1: "value_at (gainNode_gain (last (current_voices (playNote 440 ?s)))) 0 = 0"
    using T by simp
  have 2: "value_at (gainNode_gain (last (current_voices (playNote 440 ?s)))) 0.1 = 0.5"
    using T by simp
  have 3: "value_at (gainNode_gain (last (current_voices (playNote 440 ?s)))) 0.4 = 0.35"
    using T [THEN conjunct2, THEN conjunct2, THEN conjunct2, THEN conjunct2, THEN conjunct2,
        THEN conjunct1, rule_format, of "0.4"] by simp
  have 4: "value_at (gainNode_gain (last (current_voices (playNote 440 ?s)))) 10 = 0.35"
    using T [THEN conjunct2, THEN conjunct2, THEN conjunct2, THEN conjunct2, THEN conjunct2,
        THEN conjunct1, rule_format, of 10] by simp
  have 5: "param_events (gainNode_gain (last (current_voices (playNote 440 ?s)))) =
     [SetValue 0 0, LinearRamp 0.5 0.1, LinearRamp 0.35 0.4]"
    using T [THEN conjunct1] by simp
  from 1 2 3 4 5 show ?thesis by (intro conjI)
qed

section \<open>The release scheduled at note-off\<close>




section \<open>A note-on while a voice sounds\<close>

text \<open>
  Claim C1, as the specification states it, does not hold: \<^verbatim>\<open>playNote\<close> stops the
  previous note through \<^verbatim>\<open>stopNote\<close>, the release path of a note-off, and nothing in
  the component ever disconnects a node. After a note at time \<open>0\<close> and a second note at
  time \<open>1\<close>, both voices are wired to the destination, the first oscillator runs until
  \<open>1.5\<close>, and at \<open>1.25\<close> the first voice still has gain \<open>0.175\<close>.
\<close>

theorem retrigger_overlaps:
  "current_wired (run (mounted 44100 example_random) [NoteOn 440, Render 1, NoteOn 220]) = [0, 1] \<and>
   clock (run (mounted 44100 example_random) [NoteOn 440, Render 1, NoteOn 220]) = 1 \<and>
   osc_stop (current_voices
      (run (mounted 44100 example_random) [NoteOn 440, Render 1, NoteOn 220]) ! 0) = Some 1.5 \<and>
   value_at (gainNode_gain (current_voices
      (run (mounted 44100 example_random) [NoteOn 440, Render 1, NoteOn 220]) ! 0)) 1.25 = 0.175"
proof -
  let ?s = "render 1 (playNote 440 (mounted 44100 example_random))"
  have r: "run (mounted 44100 example_random) [NoteOn 440, Render 1, NoteOn 220] = playNote 220 ?s"
    by (simp add: run_def)
  from first_note_rendered [of 1] obtain ctx where
    ctx: "audioContextRef ?s = Some ctx" and now: "currentTime ctx = 1"
    and len: "length (voices ctx) = 1"
    and slot: "param_value (gainNode_gain (voices ctx ! 0)) = 0.35"
    and osc: "oscillatorRef ?s = Some 0" and g: "gainNodeRef ?s = Some 0"
    and ps: "params ?s = defaultParams"
    by auto
  have l: "0 < length (voices ctx)" using len by simp
  have rel: "envelope_release (envelope (params ?s)) = 0.5" by (simp add: ps defaultParams_def)
  have 1: "current_wired (run (mounted 44100 example_random) [NoteOn 440, Render 1, NoteOn 220])
      = [0, 1]"
    by (simp add: run_observed(1) upt_rec)
  have 2: "clock (playNote 220 ?s) = 1"
    using playNote_new_voice(8) [OF ctx] now by simp
  have 3: "osc_stop (current_voices (playNote 220 ?s) ! 0) = Some 1.5"
    using playNote_old_voice(1) [OF ctx osc g l, of 220] by (simp add: now rel)
  have "gainNode_gain (current_voices (playNote 220 ?s) ! 0) =
      released 1 0.5 (gainNode_gain (voices ctx ! 0))"
    using playNote_old_voice(2) [OF ctx osc g l, of 220] by (simp add: now rel)
  then have 4: "value_at (gainNode_gain (current_voices (playNote 220 ?s) ! 0)) 1.25 = 0.175"
    by (simp add: released_value slot)
  from 1 2 3 4 show ?thesis unfolding r by (intro conjI)
qed

text \<open>
  Claim C1, amended: after any sequence of inputs, every voice created so far is still
  wired to the destination (after \<open>n\<close> note-ons, \<open>n\<close> voice graphs), and the component
  refers to the newest voice only. A note-on treats the earlier voices exactly as a
  note-off does and adds the edges of the new voice to the existing ones; a voice that
  was referenced at that moment gets the release of \<open>stopNote\<close>: its gain is released
  from the current value and its oscillator is scheduled to stop at \<open>now + release\<close>.
\<close>

theorem retrigger_releases_and_keeps_edges:
  "current_wired (run (mounted rate rnd) ins) = [0..<length (filter is_note_on ins)] \<and>
   length (current_voices (run (mounted rate rnd) ins)) = length (filter is_note_on ins) \<and>
   oscillatorRef (playNote f (run (mounted rate rnd) ins)) =
     Some (length (filter is_note_on ins)) \<and>
   gainNodeRef (playNote f (run (mounted rate rnd) ins)) =
     Some (length (filter is_note_on ins)) \<and>
   filterNodeRef (playNote f (run (mounted rate rnd) ins)) =
     Some (length (filter is_note_on ins)) \<and>
   current_voices (playNote f (run (mounted rate rnd) ins)) =
     current_voices (stopNote (run (mounted rate rnd) ins)) @
       [last (current_voices (playNote f (run (mounted rate rnd) ins)))] \<and>
   current_connections (playNote f (run (mounted rate rnd) ins)) =
     current_connections (run (mounted rate rnd) ins) @
       connect_voice (params (run (mounted rate rnd) ins)) (length (filter is_note_on ins)) \<and>
   (\<forall>osc. oscillatorRef (run (mounted rate rnd) ins) = Some osc \<longrightarrow>
      osc_stop (current_voices (playNote f (run (mounted rate rnd) ins)) ! osc) =
        Some (clock (run (mounted rate rnd) ins)
              + envelope_release (envelope (params (run (mounted rate rnd) ins)))) \<and>
      gainNode_gain (current_voices (playNote f (run (mounted rate rnd) ins)) ! osc) =
        released (clock (run (mounted rate rnd) ins))
          (envelope_release (envelope (params (run (mounted rate rnd) ins))))
          (gainNode_gain (current_voices (run (mounted rate rnd) ins) ! osc)))"
proof -
  let ?s = "run (mounted rate rnd) ins"
  from run_invariant [of rate rnd ins] obtain ctx where ctx: "audioContextRef ?s = Some ctx"
    and l: "length (voices ctx) = length (filter is_note_on ins)"
    and r: "gainNodeRef ?s = oscillatorRef ?s"
    and o: "\<forall>osc. oscillatorRef ?s = Some osc \<longrightarrow> osc < length (voices ctx)"
    by blast
  have obs: "current_voices ?s = voices ctx" "current_connections ?s = connections ctx"
    "clock ?s = currentTime ctx"
    using ctx by (simp_all add: current_voices_def current_connections_def clock_def)
  note P = playNote_new_voice [OF ctx, of f]
  have 1: "current_voices (playNote f ?s) =
     current_voices (stopNote ?s) @ [last (current_voices (playNote f ?s))]"
    by (simp add: P(1,2))
  have 2: "osc_stop (current_voices (playNote f ?s) ! osc) =
        Some (clock ?s + envelope_release (envelope (params ?s))) \<and>
      gainNode_gain (current_voices (playNote f ?s) ! osc) =
        released (clock ?s) (envelope_release (envelope (params ?s)))
          (gainNode_gain (current_voices ?s ! osc))"
    if "oscillatorRef ?s = Some osc" for osc
    using playNote_old_voice [OF ctx that, of f] r o that by (simp add: obs)
  show ?thesis
    using run_observed [of rate rnd ins] P(3,4,5,6) 1 2 by (simp add: obs l)
qed

theorem retrigger_releases_and_keeps_edges_witness:
  "oscillatorRef (run (mounted 44100 example_random) [NoteOn 440, Render 1]) = Some 0 \<and>
   current_wired (run (mounted 44100 example_random) [NoteOn 440, Render 1]) = [0] \<and>
   oscillatorRef (playNote 220 (run (mounted 44100 example_random) [NoteOn 440, Render 1]))
     = Some 1 \<and>
   osc_stop (current_voices
      (playNote 220 (run (mounted 44100 example_random) [NoteOn 440, Render 1])) ! 0)
     = Some 1.5"
proof -
  let ?s = "render 1 (playNote 440 (mounted 44100 example_random))"
  have r: "run (mounted 44100 example_random) [NoteOn 440, Render 1] = ?s"
    by (simp add: run_def)
  from first_note_rendered [of 1] obtain ctx where
    ctx: "audioContextRef ?s = Some ctx" and now: "currentTime ctx = 1"
    and osc: "oscillatorRef ?s = Some 0" and ps: "params ?s = defaultParams"
    by auto
  have c: "clock ?s = 1" using ctx now by (simp add: clock_def)
  have rel: "envelope_release (envelope (params ?s)) = 0.5" by (simp add: ps defaultParams_def)
  note T = retrigger_releases_and_keeps_edges
    [where rate = 44100 and rnd = example_random and ins = "[NoteOn 440, Render 1]" and f = 220,
     unfolded r]
  have 1: "current_wired ?s = [0]" using T [THEN conjunct1] by simp
  have 2: "oscillatorRef (playNote 220 ?s) = Some 1"
    using T [THEN conjunct2, THEN conjunct2, THEN conjunct1] by simp
  have 3: "osc_stop (current_voices (playNote 220 ?s) ! 0) = Some 1.5"
    using T [THEN conjunct2, THEN conjunct2, THEN conjunct2, THEN conjunct2, THEN conjunct2,
        THEN conjunct2, THEN conjunct2, rule_format, OF osc, THEN conjunct1]
    by (simp add: c rel)
  from osc 1 2 3 show ?thesis unfolding r by (intro conjI)
qed

section \<open>Parameter changes while a voice sounds\<close>

text \<open>
  Claim C6, as the specification states it, does not hold for the release time:
  \<^verbatim>\<open>stopNote\<close> reads \<^verbatim>\<open>params.envelope.release\<close> when the note-off happens. With the
  release changed from \<open>0.5\<close> to \<open>2\<close> between note-on and a note-off at time \<open>1\<close>, the
  oscillator stops at \<open>3\<close> instead of \<open>1.5\<close>, and the gain at time \<open>2\<close> is \<open>0.175\<close>
  instead of \<open>0\<close>.
\<close>

theorem release_change_alters_voice:
  "osc_stop (current_voices (run (mounted 44100 example_random)
      [NoteOn 440, Render 1, UpdateParam CatEnvelope ''release'' (Num 2), NoteOff]) ! 0) = Some 3 \<and>
   osc_stop (current_voices (run (mounted 44100 example_random)
      [NoteOn 440, Render 1, NoteOff]) ! 0) = Some 1.5 \<and>
   value_at (gainNode_gain (current_voices (run (mounted 44100 example_random)
      [NoteOn 440, Render 1, UpdateParam CatEnvelope ''release'' (Num 2), NoteOff]) ! 0)) 2
     = 0.175 \<and>
   value_at (gainNode_gain (current_voices (run (mounted 44100 example_random)
      [NoteOn 440, Render 1, NoteOff]) ! 0)) 2 = 0"
proof -
  let ?s = "render 1 (playNote 440 (mounted 44100 example_random))"
  let ?p = "updateParam CatEnvelope ''release'' (Num 2) defaultParams"
  let ?s' = "?s\<lparr>params := ?p\<rparr>"
  from first_note_rendered [of 1] obtain ctx where
    ctx: "audioContextRef ?s = Some ctx" and now: "currentTime ctx = 1"
    and len: "length (voices ctx) = 1"
    and slot: "param_value (gainNode_gain (voices ctx ! 0)) = 0.35"
    and osc: "oscillatorRef ?s = Some 0" and g: "gainNodeRef ?s = Some 0"
    and ps: "params ?s = defaultParams"
    by auto
  have r: "run (mounted 44100 example_random)
      [NoteOn 440, Render 1, UpdateParam CatEnvelope ''release'' (Num 2), NoteOff] = stopNote ?s'"
    "run (mounted 44100 example_random) [NoteOn 440, Render 1, NoteOff] = stopNote ?s"
    by (simp_all add: run_def ps)
  have l: "0 < length (voices ctx)" using len by simp
  have osc': "oscillatorRef ?s' = Some 0" and g': "gainNodeRef ?s' = Some 0"
    and ctx': "audioContextRef ?s' = Some ctx"
    using osc g ctx by simp_all
  have rel: "envelope_release (envelope (params ?s)) = 0.5"
    "envelope_release (envelope (params ?s')) = 2"
    by (simp_all add: ps defaultParams_def)
  have 1: "osc_stop (current_voices (stopNote ?s') ! 0) = Some 3"
    using stopNote_osc_stop [OF osc' g' ctx' l] by (simp only: rel now) simp
  have 2: "osc_stop (current_voices (stopNote ?s) ! 0) = Some 1.5"
    using stopNote_osc_stop [OF osc g ctx l] by (simp only: rel now) simp
  have "gainNode_gain (current_voices (stopNote ?s') ! 0) =
      released 1 2 (gainNode_gain (voices ctx ! 0))"
    using stopNote_gain [OF osc' g' ctx' l] by (simp only: rel now)
  then have 3: "value_at (gainNode_gain (current_voices (stopNote ?s') ! 0)) 2 = 0.175"
    by (simp add: released_value slot)
  have "gainNode_gain (current_voices (stopNote ?s) ! 0) =
      released 1 0.5 (gainNode_gain (voices ctx ! 0))"
    using stopNote_gain [OF osc g ctx l] by (simp only: rel now)
  then have 4: "value_at (gainNode_gain (current_voices (stopNote ?s) ! 0)) 2 = 0"
    by (simp add: released_value slot)
  from 1 2 3 4 show ?thesis unfolding r by (intro conjI)
qed

text \<open>
  Claim C6, amended: a parameter change (one field, the volume, or a loaded preset)
  leaves the voices and the edges of the graph as they are, and the next note-on builds
  its voice from the changed parameters. At note-off the release ramp and the stop of
  the oscillator use the release value stored at that moment; a change that leaves the
  release value alone does not alter what note-off does to the sounding voice.
\<close>

theorem parameter_change_frame:
  assumes osc: "oscillatorRef s = Some osc" and g: "gainNodeRef s = Some g"
    and ctx: "audioContextRef s = Some ctx"
    and lg: "g < length (voices ctx)" and lo: "osc < length (voices ctx)"
  shows
    "current_voices (step s (UpdateParam c param v)) = current_voices s \<and>
     current_connections (step s (UpdateParam c param v)) = current_connections s \<and>
     current_voices (step s (SetVolume w)) = current_voices s \<and>
     current_connections (step s (SetVolume w)) = current_connections s \<and>
     current_voices (step s (LoadPreset pr)) = current_voices s \<and>
     current_connections (step s (LoadPreset pr)) = current_connections s \<and>
     last (current_voices (playNote f (s\<lparr>params := p'\<rparr>))) =
       (configure_voice p' f (currentTime ctx) (Some (impulse_of (s\<lparr>params := p'\<rparr>) ctx)))
         \<lparr>osc_start := Some (currentTime ctx)\<rparr> \<and>
     osc_stop (current_voices (stopNote (s\<lparr>params := p'\<rparr>)) ! osc) =
       Some (currentTime ctx + envelope_release (envelope p')) \<and>
     gainNode_gain (current_voices (stopNote (s\<lparr>params := p'\<rparr>)) ! g) =
       released (currentTime ctx) (envelope_release (envelope p')) (gainNode_gain (voices ctx ! g)) \<and>
     (envelope_release (envelope p') = envelope_release (envelope (params s)) \<longrightarrow>
        current_voices (stopNote (s\<lparr>params := p'\<rparr>)) = current_voices (stopNote s))"
proof -
  let ?s' = "s\<lparr>params := p'\<rparr>"
  have osc': "oscillatorRef ?s' = Some osc" and g': "gainNodeRef ?s' = Some g"
    and ctx': "audioContextRef ?s' = Some ctx"
    using osc g ctx by simp_all
  have 1: "current_voices (step s (UpdateParam c param v)) = current_voices s"
    "current_connections (step s (UpdateParam c param v)) = current_connections s"
    "current_voices (step s (SetVolume w)) = current_voices s"
    "current_connections (step s (SetVolume w)) = current_connections s"
    "current_voices (step s (LoadPreset pr)) = current_voices s"
    "current_connections (step s (LoadPreset pr)) = current_connections s"
    by (simp_all add: current_voices_def current_connections_def)
  have 2: "last (current_voices (playNote f ?s')) =
       (configure_voice p' f (currentTime ctx) (Some (impulse_of ?s' ctx)))
         \<lparr>osc_start := Some (currentTime ctx)\<rparr>"
    using playNote_new_voice(1) [OF ctx', of f] by simp
  have 3: "osc_stop (current_voices (stopNote ?s') ! osc) =
       Some (currentTime ctx + envelope_release (envelope p'))"
    using stopNote_osc_stop [OF osc' g' ctx' lo] by simp
  have 4: "gainNode_gain (current_voices (stopNote ?s') ! g) =
       released (currentTime ctx) (envelope_release (envelope p')) (gainNode_gain (voices ctx ! g))"
    using stopNote_gain [OF osc' g' ctx' lg] by simp
  from 1 2 3 4 stopNote_only_release [of p' s] show ?thesis by (intro conjI impI)
qed

theorem parameter_change_frame_witness:
  "oscillatorRef (run (mounted 44100 example_random) [NoteOn 440, Render 1]) = Some 0 \<and>
   gainNodeRef (run (mounted 44100 example_random) [NoteOn 440, Render 1]) = Some 0 \<and>
   current_voices (step (run (mounted 44100 example_random) [NoteOn 440, Render 1])
       (UpdateParam CatFilter ''Q'' (Num 5))) =
     current_voices (run (mounted 44100 example_random) [NoteOn 440, Render 1]) \<and>
   current_voices (stopNote (step (run (mounted 44100 example_random) [NoteOn 440, Render 1])
       (UpdateParam CatFilter ''Q'' (Num 5)))) =
     current_voices (stopNote (run (mounted 44100 example_random) [NoteOn 440, Render 1])) \<and>
   osc_stop (current_voices (stopNote (step (run (mounted 44100 example_random)
       [NoteOn 440, Render 1]) (UpdateParam CatEnvelope ''release'' (Num 2)))) ! 0) = Some 3"
proof -
  let ?s = "render 1 (playNote 440 (mounted 44100 example_random))"
  have r: "run (mounted 44100 example_random) [NoteOn 440, Render 1] = ?s"
    by (simp add: run_def)
  from first_note_rendered [of 1] obtain ctx where
    ctx: "audioContextRef ?s = Some ctx" and now: "currentTime ctx = 1"
    and len: "length (voices ctx) = 1"
    and osc: "oscillatorRef ?s = Some 0" and g: "gainNodeRef ?s = Some 0"
    and ps: "params ?s = defaultParams"
    by auto
  have l: "0 < length (voices ctx)" using len by simp
  note T = parameter_change_frame [OF osc g ctx l l]
  let ?q = "updateParam CatFilter ''Q'' (Num 5) (params ?s)"
  let ?p = "updateParam CatEnvelope ''release'' (Num 2) (params ?s)"
  have st: "step ?s (UpdateParam CatFilter ''Q'' (Num 5)) = ?s\<lparr>params := ?q\<rparr>"
    "step ?s (UpdateParam CatEnvelope ''release'' (Num 2)) = ?s\<lparr>params := ?p\<rparr>"
    by simp_all
  have e: "envelope_release (envelope ?q) = envelope_release (envelope (params ?s))"
    "envelope_release (envelope ?p) = 2"
    by simp_all
  have 1: "current_voices (step ?s (UpdateParam CatFilter ''Q'' (Num 5))) = current_voices ?s"
    by (rule T [THEN conjunct1])
  have 2: "current_voices (stopNote (step ?s (UpdateParam CatFilter ''Q'' (Num 5)))) =
      current_voices (stopNote ?s)"
    unfolding st
    by (rule T [where p' = ?q, THEN conjunct2, THEN conjunct2, THEN conjunct2, THEN conjunct2,
          THEN conjunct2, THEN conjunct2, THEN conjunct2, THEN conjunct2, THEN conjunct2,
          THEN mp, OF e(1)])
  have 3: "osc_stop (current_voices (stopNote (step ?s
      (UpdateParam CatEnvelope ''release'' (Num 2)))) ! 0) = Some 3"
    unfolding st
    using T [where p' = ?p, THEN conjunct2, THEN conjunct2, THEN conjunct2, THEN conjunct2,
          THEN conjunct2, THEN conjunct2, THEN conjunct2, THEN conjunct1]
    by (simp only: e now) simp
  from osc g 1 2 3 show ?thesis unfolding r by (intro conjI)
qed

section \<open>The distortion curve\<close>

text \<open>
  Claim C7: for every distortion amount and every index \<open>i < 44100\<close>, the curve
  computed from \<open>amountScaled = distortionAmount * 100\<close> has \<open>44100\<close> samples and
  \<open>curve[i] = (3 + amountScaled) * x * 20 * (\<pi>/180) / (\<pi> + amountScaled * |x|)\<close> with
  \<open>x = 2i/44100 - 1\<close>. This is the curve that \<^verbatim>\<open>playNote\<close> gives the distortion node of
  the new voice when the stored distortion amount is positive; otherwise the node gets
  no curve.
\<close>

theorem distortion_curve_formula:
  assumes "i < 44100"
  shows
    "createDistortionCurve (distortionAmount * 100) ! i =
       ((3 + distortionAmount * 100) * (2 * real i / 44100 - 1) * 20 * (pi / 180))
         / (pi + distortionAmount * 100 * \<bar>2 * real i / 44100 - 1\<bar>) \<and>
     length (createDistortionCurve (distortionAmount * 100)) = 44100 \<and>
     (0 \<le> distortionAmount \<longrightarrow>
        0 < pi + distortionAmount * 100 * \<bar>2 * real i / 44100 - 1\<bar>) \<and>
     (audioContextRef s = Some ctx \<and> 0 < effects_distortion (effects (params s)) \<longrightarrow>
        distortionNode_curve (last (current_voices (playNote f s))) =
          Some (createDistortionCurve (effects_distortion (effects (params s)) * 100))) \<and>
     (audioContextRef s = Some ctx \<and> \<not> 0 < effects_distortion (effects (params s)) \<longrightarrow>
        distortionNode_curve (last (current_voices (playNote f s))) = None)"
proof -
  have "createDistortionCurve (distortionAmount * 100) ! i =
          distortion_sample (distortionAmount * 100) 44100 i"
    using assms by (rule createDistortionCurve_nth)
  then have A: "createDistortionCurve (distortionAmount * 100) ! i =
       ((3 + distortionAmount * 100) * (2 * real i / 44100 - 1) * 20 * (pi / 180))
         / (pi + distortionAmount * 100 * \<bar>2 * real i / 44100 - 1\<bar>)"
    by (simp add: distortion_sample_def Let_def mult.commute)
  have B: "distortionNode_curve (last (current_voices (playNote f s))) =
          (if 0 < effects_distortion (effects (params s))
           then Some (createDistortionCurve (effects_distortion (effects (params s)) * 100))
           else None)"
    if "audioContextRef s = Some ctx"
    by (simp add: playNote_new_voice(1)[OF that] configure_voice_def)
  have C: "0 < pi + distortionAmount * 100 * \<bar>2 * real i / 44100 - 1\<bar>"
    if "0 \<le> distortionAmount"
  proof -
    have "0 \<le> distortionAmount * 100 * \<bar>2 * real i / 44100 - 1\<bar>"
      using that by (intro mult_nonneg_nonneg) simp_all
    then show ?thesis using pi_gt_zero by linarith
  qed
  from A B C show ?thesis by (simp add: createDistortionCurve_length)
qed

theorem distortion_curve_formula_witness:
  "(22050::nat) < 44100 \<and>
   createDistortionCurve (0.5 * 100) ! 22050 = 0 \<and>
   createDistortionCurve (0.5 * 100) ! 0 = - (53 * 20 * (pi / 180)) / (pi + 50) \<and>
   distortionNode_curve (last (current_voices (playNote 440
     ((mounted 44100 example_random)
        \<lparr>params := updateParam CatEffects ''distortion'' (Num 0.5) defaultParams\<rparr>)))) =
     Some (createDistortionCurve (0.5 * 100)) \<and>
   distortionNode_curve (last (current_voices (playNote 440 (mounted 44100 example_random)))) =
     None"
proof -
  let ?s = "(mounted 44100 example_random)
        \<lparr>params := updateParam CatEffects ''distortion'' (Num 0.5) defaultParams\<rparr>"
  let ?ctx = "\<lparr> currentTime = 0, sampleRate = 44100, voices = [], connections = [] \<rparr>"
  have i: "(22050::nat) < 44100" and z: "(0::nat) < 44100" by simp_all
  have c: "audioContextRef ?s = Some ?ctx" "audioContextRef (mounted 44100 example_random) = Some ?ctx"
    by (simp_all add: mounted_def)
  have d: "0 < effects_distortion (effects (params ?s))"
    "effects_distortion (effects (params ?s)) = 0.5"
    "\<not> 0 < effects_distortion (effects (params (mounted 44100 example_random)))"
    by (simp_all add: mounted_def defaultParams_def)
  from distortion_curve_formula
      [OF i, where distortionAmount = "0.5" and s = ?s and ctx = ?ctx and f = 440]
    distortion_curve_formula
      [OF z, where distortionAmount = "0.5" and s = "mounted 44100 example_random"
         and ctx = ?ctx and f = 440]
    c d
  show ?thesis by simp
qed

section \<open>The reverb impulse response\<close>

lemma impulse_of_channels:
  "\<exists>ch0 ch1. impulse_of s ctx = [ch0, ch1] \<and>
     length ch0 = sampleRate ctx * 2 \<and> length ch1 = sampleRate ctx * 2 \<and>
     (\<forall>i < sampleRate ctx * 2.
        ch0 ! i = impulse_sample (random_source s (random_calls s + i))
                    (effects_reverb (effects (params s)) * 10) (sampleRate ctx * 2) i \<and>
        ch1 ! i = impulse_sample (random_source s (random_calls s + sampleRate ctx * 2 + i))
                    (effects_reverb (effects (params s)) * 10) (sampleRate ctx * 2) i)"
  by (simp add: impulse_of_def Let_def sample_loop_length sample_loop_nth)

lemma envelope_antimono:
  fixes d :: real
  assumes "0 \<le> d" "i \<le> j" "j < len"
  shows "(1 - real j / real len) powr d \<le> (1 - real i / real len) powr d"
proof -
  have "0 < real len" using assms by simp
  have "real i / real len \<le> real j / real len"
    using assms by (simp add: divide_right_mono)
  moreover have "real j / real len < 1" using assms by simp
  ultimately have "0 < 1 - real j / real len" "1 - real j / real len \<le> 1 - real i / real len"
    by simp_all
  then show ?thesis using assms(1) by (intro powr_mono2) simp_all
qed

lemma envelope_strict:
  fixes d :: real
  assumes "0 < d" "i < j" "j < len"
  shows "(1 - real j / real len) powr d < (1 - real i / real len) powr d"
proof -
  have "0 < real len" using assms by simp
  then have "real i / real len < real j / real len"
    using assms by (simp add: divide_strict_right_mono)
  moreover have "real j / real len < 1" using assms by simp
  ultimately have "0 \<le> 1 - real j / real len" "1 - real j / real len < 1 - real i / real len"
    by simp_all
  then show ?thesis using assms(1) by (intro powr_less_mono2) simp_all
qed

text \<open>
  Claim C8: the impulse response that \<^verbatim>\<open>playNote\<close> gives the reverb node has two
  channels of \<open>2 * sampleRate\<close> samples. Sample \<open>i\<close> of a channel is \<open>2r - 1\<close>, for a
  draw \<open>r\<close> of \<^verbatim>\<open>Math.random()\<close> that no other sample uses, times the envelope
  \<open>(1 - i/length) powr (reverbAmount * 10)\<close>. For a non-negative exponent the magnitude
  of a sample, for a given draw, does not grow with \<open>i\<close>, and for a positive exponent
  the envelope itself strictly decreases with \<open>i\<close>.
\<close>

theorem impulse_response_shape:
  assumes ctx: "audioContextRef s = Some ctx" and i: "i < 2 * sampleRate ctx"
  shows
    "(\<exists>ch0 ch1.
        reverbNode_buffer (last (current_voices (playNote f s))) = Some [ch0, ch1] \<and>
        length ch0 = 2 * sampleRate ctx \<and> length ch1 = 2 * sampleRate ctx \<and>
        ch0 ! i = (random_source s (random_calls s + i) * 2 - 1)
                  * (1 - real i / real (2 * sampleRate ctx))
                      powr (effects_reverb (effects (params s)) * 10) \<and>
        ch1 ! i = (random_source s (random_calls s + 2 * sampleRate ctx + i) * 2 - 1)
                  * (1 - real i / real (2 * sampleRate ctx))
                      powr (effects_reverb (effects (params s)) * 10)) \<and>
     0 < 1 - real i / real (2 * sampleRate ctx) \<and>
     (\<forall>r decay j. 0 \<le> decay \<and> i \<le> j \<and> j < 2 * sampleRate ctx \<longrightarrow>
        \<bar>impulse_sample r decay (2 * sampleRate ctx) j\<bar>
          \<le> \<bar>impulse_sample r decay (2 * sampleRate ctx) i\<bar>) \<and>
     (\<forall>decay j. 0 < decay \<and> i < j \<and> j < 2 * sampleRate ctx \<longrightarrow>
        impulse_sample 1 decay (2 * sampleRate ctx) j
          < impulse_sample 1 decay (2 * sampleRate ctx) i)"
proof -
  let ?len = "2 * sampleRate ctx"
  from impulse_of_channels [of s ctx] obtain ch0 ch1 where
    b: "impulse_of s ctx = [ch0, ch1]"
    and l: "length ch0 = sampleRate ctx * 2" "length ch1 = sampleRate ctx * 2"
    and n: "\<forall>i < sampleRate ctx * 2.
        ch0 ! i = impulse_sample (random_source s (random_calls s + i))
                    (effects_reverb (effects (params s)) * 10) (sampleRate ctx * 2) i \<and>
        ch1 ! i = impulse_sample (random_source s (random_calls s + sampleRate ctx * 2 + i))
                    (effects_reverb (effects (params s)) * 10) (sampleRate ctx * 2) i"
    by blast
  have buf: "reverbNode_buffer (last (current_voices (playNote f s))) = Some [ch0, ch1]"
    by (simp add: playNote_new_voice(1)[OF ctx] configure_voice_def b)
  have i': "i < sampleRate ctx * 2" using i by simp
  have A: "\<exists>ch0 ch1.
        reverbNode_buffer (last (current_voices (playNote f s))) = Some [ch0, ch1] \<and>
        length ch0 = ?len \<and> length ch1 = ?len \<and>
        ch0 ! i = (random_source s (random_calls s + i) * 2 - 1)
                  * (1 - real i / real ?len) powr (effects_reverb (effects (params s)) * 10) \<and>
        ch1 ! i = (random_source s (random_calls s + ?len + i) * 2 - 1)
                  * (1 - real i / real ?len) powr (effects_reverb (effects (params s)) * 10)"
    using buf l n[rule_format, OF i']
    by (simp add: impulse_sample_def mult.commute)
  have B: "\<bar>impulse_sample r decay ?len j\<bar> \<le> \<bar>impulse_sample r decay ?len i\<bar>"
    if "0 \<le> decay \<and> i \<le> j \<and> j < ?len" for r decay j
  proof -
    have "(1 - real j / real ?len) powr decay \<le> (1 - real i / real ?len) powr decay"
      using that by (intro envelope_antimono) simp_all
    then have "\<bar>r * 2 - 1\<bar> * (1 - real j / real ?len) powr decay
            \<le> \<bar>r * 2 - 1\<bar> * (1 - real i / real ?len) powr decay"
      by (intro mult_left_mono) simp_all
    then show ?thesis by (simp add: impulse_sample_def abs_mult)
  qed
  have C: "impulse_sample 1 decay ?len j < impulse_sample 1 decay ?len i"
    if "0 < decay \<and> i < j \<and> j < ?len" for decay j
    using envelope_strict[of decay i j ?len] that by (simp add: impulse_sample_def)
  have D: "0 < 1 - real i / real ?len" using i by simp
  from A B C D show ?thesis by blast
qed

theorem impulse_response_shape_witness:
  "(\<exists>ch0 ch1.
     reverbNode_buffer (last (current_voices (playNote 440 (mounted 44100 example_random)))) =
       Some [ch0, ch1] \<and>
     length ch0 = 88200 \<and> length ch1 = 88200 \<and> ch0 ! 44100 = 1 / 8 \<and> ch1 ! 44100 = 1 / 8) \<and>
   impulse_sample 1 2 88200 66150 < impulse_sample 1 2 88200 44100 \<and>
   \<bar>impulse_sample (1 / 4) 0 88200 66150\<bar> \<le> \<bar>impulse_sample (1 / 4) 0 88200 44100\<bar>"
proof -
  let ?ctx = "\<lparr> currentTime = 0, sampleRate = 44100, voices = [], connections = [] \<rparr>"
  have c: "audioContextRef (mounted 44100 example_random) = Some ?ctx"
    by (simp add: mounted_def)
  have i: "44100 < 2 * sampleRate ?ctx" by simp
  have e: "(1 - real 44100 / real (2 * sampleRate ?ctx))
             powr (effects_reverb (effects (params (mounted 44100 example_random))) * 10) = 1 / 4"
    by (simp add: mounted_def defaultParams_def power2_eq_square)
  note T = impulse_response_shape [OF c i, where f = 440]
  have 1: "\<exists>ch0 ch1.
     reverbNode_buffer (last (current_voices (playNote 440 (mounted 44100 example_random)))) =
       Some [ch0, ch1] \<and>
     length ch0 = 88200 \<and> length ch1 = 88200 \<and> ch0 ! 44100 = 1 / 8 \<and> ch1 ! 44100 = 1 / 8"
    using T [THEN conjunct1]
    by (simp only: e) (simp add: mounted_def example_random_def)
  have 2: "impulse_sample 1 2 88200 66150 < impulse_sample 1 2 88200 44100"
    using T [THEN conjunct2, THEN conjunct2, THEN conjunct2, rule_format, of 2 66150] by simp
  have 3: "\<bar>impulse_sample (1 / 4) 0 88200 66150\<bar> \<le> \<bar>impulse_sample (1 / 4) 0 88200 44100\<bar>"
    using T [THEN conjunct2, THEN conjunct2, THEN conjunct1, rule_format, of 0 66150 "1 / 4"]
    by simp
  from 1 2 3 show ?thesis by (intro conjI)
qed

section \<open>The edges of a voice\<close>

text \<open>
  Claim C5: \<^verbatim>\<open>playNote\<close> adds exactly the edges of \<open>connect_voice\<close> for the new
  voice. Oscillator to filter, gain to master and master to destination are always
  there. The two edges through the distortion node are there if and only if the
  distortion amount is positive, and the direct edge from filter to gain if and only
  if it is not. The two edges of the reverb send are there if and only if the reverb
  amount is positive, and the four edges of the delay send (with its feedback edge) if
  and only if the delay amount is positive. There are no other edges.
\<close>

theorem voice_graph_structure:
  assumes "audioContextRef s = Some ctx"
  shows
    "current_connections (playNote f s) =
       connections ctx @ connect_voice (params s) (length (voices ctx)) \<and>
     (Stage n OscillatorNode, Stage n FilterNode) \<in> set (connect_voice p n) \<and>
     (Stage n GainNode, Stage n MasterGain) \<in> set (connect_voice p n) \<and>
     (Stage n MasterGain, Destination) \<in> set (connect_voice p n) \<and>
     ((Stage n FilterNode, Stage n DistortionNode) \<in> set (connect_voice p n)
        \<longleftrightarrow> 0 < effects_distortion (effects p)) \<and>
     ((Stage n DistortionNode, Stage n GainNode) \<in> set (connect_voice p n)
        \<longleftrightarrow> 0 < effects_distortion (effects p)) \<and>
     ((Stage n FilterNode, Stage n GainNode) \<in> set (connect_voice p n)
        \<longleftrightarrow> \<not> 0 < effects_distortion (effects p)) \<and>
     ((Stage n GainNode, Stage n ReverbNode) \<in> set (connect_voice p n)
        \<longleftrightarrow> 0 < effects_reverb (effects p)) \<and>
     ((Stage n ReverbNode, Stage n MasterGain) \<in> set (connect_voice p n)
        \<longleftrightarrow> 0 < effects_reverb (effects p)) \<and>
     ((Stage n GainNode, Stage n DelayNode) \<in> set (connect_voice p n)
        \<longleftrightarrow> 0 < effects_delay (effects p)) \<and>
     ((Stage n DelayNode, Stage n DelayGain) \<in> set (connect_voice p n)
        \<longleftrightarrow> 0 < effects_delay (effects p)) \<and>
     ((Stage n DelayGain, Stage n DelayNode) \<in> set (connect_voice p n)
        \<longleftrightarrow> 0 < effects_delay (effects p)) \<and>
     ((Stage n DelayGain, Stage n MasterGain) \<in> set (connect_voice p n)
        \<longleftrightarrow> 0 < effects_delay (effects p)) \<and>
     set (connect_voice p n) \<subseteq>
       {(Stage n OscillatorNode, Stage n FilterNode), (Stage n FilterNode, Stage n DistortionNode),
        (Stage n DistortionNode, Stage n GainNode), (Stage n FilterNode, Stage n GainNode),
        (Stage n GainNode, Stage n MasterGain), (Stage n GainNode, Stage n ReverbNode),
        (Stage n ReverbNode, Stage n MasterGain), (Stage n GainNode, Stage n DelayNode),
        (Stage n DelayNode, Stage n DelayGain), (Stage n DelayGain, Stage n DelayNode),
        (Stage n DelayGain, Stage n MasterGain), (Stage n MasterGain, Destination)}"
proof -
  have "current_connections (playNote f s) =
       connections ctx @ connect_voice (params s) (length (voices ctx))"
    using assms by (rule playNote_new_voice)
  moreover have "set (connect_voice p n) \<subseteq>
       {(Stage n OscillatorNode, Stage n FilterNode), (Stage n FilterNode, Stage n DistortionNode),
        (Stage n DistortionNode, Stage n GainNode), (Stage n FilterNode, Stage n GainNode),
        (Stage n GainNode, Stage n MasterGain), (Stage n GainNode, Stage n ReverbNode),
        (Stage n ReverbNode, Stage n MasterGain), (Stage n GainNode, Stage n DelayNode),
        (Stage n DelayNode, Stage n DelayGain), (Stage n DelayGain, Stage n DelayNode),
        (Stage n DelayGain, Stage n MasterGain), (Stage n MasterGain, Destination)}"
    by (auto simp: connect_voice_def)
  ultimately show ?thesis by (simp add: connect_voice_def)
qed

theorem voice_graph_structure_witness:
  "current_connections (playNote 440 (mounted 44100 example_random)) =
     [(Stage 0 OscillatorNode, Stage 0 FilterNode), (Stage 0 FilterNode, Stage 0 GainNode),
      (Stage 0 GainNode, Stage 0 MasterGain), (Stage 0 GainNode, Stage 0 ReverbNode),
      (Stage 0 ReverbNode, Stage 0 MasterGain), (Stage 0 GainNode, Stage 0 DelayNode),
      (Stage 0 DelayNode, Stage 0 DelayGain), (Stage 0 DelayGain, Stage 0 DelayNode),
      (Stage 0 DelayGain, Stage 0 MasterGain), (Stage 0 MasterGain, Destination)] \<and>
   (Stage 0 FilterNode, Stage 0 DistortionNode) \<notin> set (connect_voice defaultParams 0) \<and>
   (Stage 0 FilterNode, Stage 0 DistortionNode)
      \<in> set (connect_voice (updateParam CatEffects ''distortion'' (Num 0.5) defaultParams) 0)"
proof -
  have c: "audioContextRef (mounted 44100 example_random) =
      Some \<lparr> currentTime = 0, sampleRate = 44100, voices = [], connections = [] \<rparr>"
    by (simp add: mounted_def)
  note T = voice_graph_structure [OF c, where f = 440]
  have "current_connections (playNote 440 (mounted 44100 example_random)) =
          connect_voice defaultParams 0"
    using T [THEN conjunct1] by (simp add: mounted_def)
  moreover have "0 < effects_reverb (effects defaultParams)" "0 < effects_delay (effects defaultParams)"
    "\<not> 0 < effects_distortion (effects defaultParams)"
    "0 < effects_distortion (effects (updateParam CatEffects ''distortion'' (Num 0.5) defaultParams))"
    by (simp_all add: defaultParams_def)
  ultimately show ?thesis
    using T [where n = 0 and p = defaultParams]
      T [where n = 0 and p = "updateParam CatEffects ''distortion'' (Num 0.5) defaultParams"]
    by (simp add: connect_voice_def)
qed

section \<open>Parameter updates are stored unchecked\<close>

text \<open>
  Claim C2, as the specification states it, does not hold: no update validates its
  value, and no validation error exists in the component. Setting the resonance to
  \<open>35\<close>, outside \<open>[0.1, 30]\<close>, succeeds, changes the stored parameters and leaves
  them out of range.
\<close>

theorem updateParam_out_of_range_stored:
  "filter_Q (filter_params (updateParam CatFilter ''Q'' (Num 35) defaultParams)) = 35 \<and>
   updateParam CatFilter ''Q'' (Num 35) defaultParams \<noteq> defaultParams \<and>
   in_range defaultParams \<and>
   \<not> in_range (updateParam CatFilter ''Q'' (Num 35) defaultParams)"
  by (simp add: defaultParams_def in_range_def)

text \<open>
  Claim C2, amended: for every numeric field and every value, in range or not, the
  update succeeds and the stored parameters are the previous ones with that field set
  to the value as given; every other field is unchanged.
\<close>

theorem updateParam_unchecked:
  "updateParam CatOscillator ''frequency'' (Num v) p =
     p\<lparr>oscillator := (oscillator p)\<lparr>oscillator_frequency := v\<rparr>\<rparr> \<and>
   updateParam CatOscillator ''detune'' (Num v) p =
     p\<lparr>oscillator := (oscillator p)\<lparr>oscillator_detune := v\<rparr>\<rparr> \<and>
   updateParam CatFilter ''frequency'' (Num v) p =
     p\<lparr>filter_params := (filter_params p)\<lparr>filter_frequency := v\<rparr>\<rparr> \<and>
   updateParam CatFilter ''Q'' (Num v) p =
     p\<lparr>filter_params := (filter_params p)\<lparr>filter_Q := v\<rparr>\<rparr> \<and>
   updateParam CatEnvelope ''attack'' (Num v) p =
     p\<lparr>envelope := (envelope p)\<lparr>envelope_attack := v\<rparr>\<rparr> \<and>
   updateParam CatEnvelope ''decay'' (Num v) p =
     p\<lparr>envelope := (envelope p)\<lparr>envelope_decay := v\<rparr>\<rparr> \<and>
   updateParam CatEnvelope ''sustain'' (Num v) p =
     p\<lparr>envelope := (envelope p)\<lparr>envelope_sustain := v\<rparr>\<rparr> \<and>
   updateParam CatEnvelope ''release'' (Num v) p =
     p\<lparr>envelope := (envelope p)\<lparr>envelope_release := v\<rparr>\<rparr> \<and>
   updateParam CatEffects ''reverb'' (Num v) p =
     p\<lparr>effects := (effects p)\<lparr>effects_reverb := v\<rparr>\<rparr> \<and>
   updateParam CatEffects ''delay'' (Num v) p =
     p\<lparr>effects := (effects p)\<lparr>effects_delay := v\<rparr>\<rparr> \<and>
   updateParam CatEffects ''distortion'' (Num v) p =
     p\<lparr>effects := (effects p)\<lparr>effects_distortion := v\<rparr>\<rparr> \<and>
   setVolume v p = p\<lparr>volume := v\<rparr>"
  by (simp add: setVolume_def)

section \<open>Deleting a preset\<close>

text \<open>
  Claim C9, as the specification states it, does not hold for a caller who is not
  signed in: the failure is then the separate error \<^verbatim>\<open>"Must be logged in"\<close>, not the
  one that covers a missing record and a record of another user.
\<close>

theorem deletePreset_unauthenticated_error:
  "deletePreset None 0 [0 \<mapsto> preset_record ''lead'' ''bob'' defaultParams] = Inl MustBeLoggedIn \<and>
   deletePreset None 0 [0 \<mapsto> preset_record ''lead'' ''bob'' defaultParams]
     \<noteq> Inl NotFoundOrUnauthorized"
  by (simp add: deletePreset_def)

text \<open>
  Claim C9, amended: a deletion succeeds exactly when the caller is signed in, the
  record exists and its owner is the caller, and it then removes that record and
  nothing else. A signed-in caller whose target is absent or owned by another user
  gets the one error \<open>NotFoundOrUnauthorized\<close>; a caller who is not signed in gets
  \<open>MustBeLoggedIn\<close>. Every failure leaves the storage as it was.
\<close>

theorem deletePreset_owner_only:
  "((\<exists>db'. deletePreset auth i db = Inr db') \<longleftrightarrow>
      (\<exists>u p. auth = Some u \<and> db i = Some p \<and> preset_userId p = u)) \<and>
   (deletePreset auth i db = Inr db' \<longrightarrow> db' = db(i := None)) \<and>
   (auth = None \<longrightarrow> deletePreset auth i db = Inl MustBeLoggedIn) \<and>
   (auth = Some u \<and> (db i = None \<or> (\<exists>p. db i = Some p \<and> preset_userId p \<noteq> u))
      \<longrightarrow> deletePreset auth i db = Inl NotFoundOrUnauthorized) \<and>
   ((\<exists>e. deletePreset auth i db = Inl e) \<longrightarrow> storage_after (deletePreset auth i db) db = db)"
  by (auto simp: deletePreset_def storage_after_def split: option.splits if_splits)

theorem deletePreset_owner_only_witness:
  "deletePreset (Some ''bob'') 0 [0 \<mapsto> preset_record ''lead'' ''bob'' defaultParams]
     = Inr Map.empty \<and>
   deletePreset (Some ''alice'') 0 [0 \<mapsto> preset_record ''lead'' ''bob'' defaultParams]
     = Inl NotFoundOrUnauthorized \<and>
   deletePreset (Some ''alice'') 1 [0 \<mapsto> preset_record ''lead'' ''bob'' defaultParams]
     = Inl NotFoundOrUnauthorized \<and>
   storage_after
     (deletePreset (Some ''alice'') 0 [0 \<mapsto> preset_record ''lead'' ''bob'' defaultParams])
     [0 \<mapsto> preset_record ''lead'' ''bob'' defaultParams]
     = [0 \<mapsto> preset_record ''lead'' ''bob'' defaultParams] \<and>
   deletePreset None 0 [0 \<mapsto> preset_record ''lead'' ''bob'' defaultParams]
     = Inl MustBeLoggedIn"
proof -
  let ?db = "[(0::nat) \<mapsto> preset_record ''lead'' ''bob'' defaultParams]"
  note bob = deletePreset_owner_only [where auth = "Some ''bob''" and i = 0 and db = ?db]
  note alice = deletePreset_owner_only
    [where auth = "Some ''alice''" and i = 0 and db = ?db and u = "''alice''"]
  note alice' = deletePreset_owner_only
    [where auth = "Some ''alice''" and i = 1 and db = ?db and u = "''alice''"]
  note nobody = deletePreset_owner_only [where auth = None and i = 0 and db = ?db]
  have own: "\<exists>u p. Some ''bob'' = Some u \<and> ?db 0 = Some p \<and> preset_userId p = u"
    by (simp add: preset_record_def)
  have other: "Some ''alice'' = Some ''alice'' \<and>
      (?db 0 = None \<or> (\<exists>p. ?db 0 = Some p \<and> preset_userId p \<noteq> ''alice''))"
    by (simp add: preset_record_def)
  have absent: "Some ''alice'' = Some ''alice'' \<and>
      (?db 1 = None \<or> (\<exists>p. ?db 1 = Some p \<and> preset_userId p \<noteq> ''alice''))"
    by simp
  have "\<exists>db'. deletePreset (Some ''bob'') 0 ?db = Inr db'"
    by (rule iffD2 [OF bob [THEN conjunct1] own])
  then obtain db' where d: "deletePreset (Some ''bob'') 0 ?db = Inr db'" ..
  have "db' = ?db(0 := None)"
    by (rule mp [OF bob [where db' = db', THEN conjunct2, THEN conjunct1] d])
  with d have 1: "deletePreset (Some ''bob'') 0 ?db = Inr Map.empty" by simp
  have 2: "deletePreset (Some ''alice'') 0 ?db = Inl NotFoundOrUnauthorized"
    by (rule mp [OF alice [THEN conjunct2, THEN conjunct2, THEN conjunct2, THEN conjunct1] other])
  have 3: "deletePreset (Some ''alice'') 1 ?db = Inl NotFoundOrUnauthorized"
    by (rule mp [OF alice' [THEN conjunct2, THEN conjunct2, THEN conjunct2, THEN conjunct1] absent])
  from 2 have "\<exists>e. deletePreset (Some ''alice'') 0 ?db = Inl e" ..
  then have 4: "storage_after (deletePreset (Some ''alice'') 0 ?db) ?db = ?db"
    by (rule mp [OF alice [THEN conjunct2, THEN conjunct2, THEN conjunct2, THEN conjunct2]])
  have 5: "deletePreset None 0 ?db = Inl MustBeLoggedIn"
    by (rule mp [OF nobody [THEN conjunct2, THEN conjunct2, THEN conjunct1] refl])
  show ?thesis
    by (intro conjI 1 2 3 4 5)
qed

section \<open>Rounding to doubles\<close>

lemma ulp_pos: "0 < ulp x"
  by (simp add: ulp_def)

lemma ulp_binade: "ulp x = 2 powr real_of_int (binade x) / 2 ^ 52"
  by (simp add: ulp_def powr_diff)

lemma round_even_int: "round_even (real_of_int k) = k"
  by (simp add: round_even_def)

lemma round_even_cases: "round_even r = \<lfloor>r\<rfloor> \<or> round_even r = \<lfloor>r\<rfloor> + 1"
  by (simp add: round_even_def Let_def)

lemma round_even_mono:
  assumes "r \<le> s"
  shows "round_even r \<le> round_even s"
proof (cases "\<lfloor>r\<rfloor> = \<lfloor>s\<rfloor>")
  case True
  then show ?thesis using assms
    by (auto simp: round_even_def Let_def)
next
  case False
  with assms have "\<lfloor>r\<rfloor> < \<lfloor>s\<rfloor>" using floor_mono[OF assms] by linarith
  moreover have "round_even r \<le> \<lfloor>r\<rfloor> + 1" using round_even_cases[of r] by linarith
  moreover have "\<lfloor>s\<rfloor> \<le> round_even s" using round_even_cases[of s] by linarith
  ultimately show ?thesis by linarith
qed

lemma binade_upper:
  assumes "x \<noteq> 0"
  shows "\<bar>x\<bar> < 2 powr (real_of_int (binade x) + 1)"
proof -
  have p: "0 < \<bar>x\<bar>" using assms by simp
  have "log 2 \<bar>x\<bar> < real_of_int \<lfloor>log 2 \<bar>x\<bar>\<rfloor> + 1" by linarith
  also have "\<dots> \<le> real_of_int (binade x) + 1" by (simp add: binade_def)
  finally have "log 2 \<bar>x\<bar> < real_of_int (binade x) + 1" .
  then show ?thesis using p by (simp add: log_less_iff)
qed

lemma binade_lower:
  assumes "x \<noteq> 0" and "- 1022 < binade x"
  shows "2 powr real_of_int (binade x) \<le> \<bar>x\<bar>"
proof -
  have p: "0 < \<bar>x\<bar>" using assms by simp
  from assms(2) have "binade x = \<lfloor>log 2 \<bar>x\<bar>\<rfloor>" by (simp add: binade_def max_def split: if_splits)
  then have "real_of_int (binade x) \<le> log 2 \<bar>x\<bar>" by simp
  then show ?thesis using p by (simp add: le_log_iff)
qed

lemma binade_eq:
  assumes "- 1022 \<le> e" "2 powr real_of_int e \<le> \<bar>x\<bar>" "\<bar>x\<bar> < 2 powr (real_of_int e + 1)"
  shows "binade x = e"
proof -
  have p: "0 < \<bar>x\<bar>" using assms(2) by (smt (verit) powr_gt_zero)
  have "real_of_int e \<le> log 2 \<bar>x\<bar>" using assms(2) p by (simp add: le_log_iff)
  moreover have "log 2 \<bar>x\<bar> < real_of_int e + 1" using assms(3) p by (simp add: log_less_iff)
  ultimately have "\<lfloor>log 2 \<bar>x\<bar>\<rfloor> = e" by linarith
  with assms(1) show ?thesis by (simp add: binade_def)
qed

lemma binade_mono:
  assumes "0 < \<bar>x\<bar>" "\<bar>x\<bar> \<le> \<bar>y\<bar>"
  shows "binade x \<le> binade y"
proof -
  have "\<lfloor>log 2 \<bar>x\<bar>\<rfloor> \<le> \<lfloor>log 2 \<bar>y\<bar>\<rfloor>" using assms by (intro floor_mono) simp
  then show ?thesis by (simp add: binade_def)
qed

lemma fl_zero: "fl 0 = 0"
  by (simp add: fl_def)

lemma fl_nonneg:
  assumes "0 \<le> x"
  shows "0 \<le> fl x"
proof (cases "x = 0")
  case True
  then show ?thesis by (simp add: fl_zero)
next
  case False
  have "0 \<le> x / ulp x" using assms ulp_pos[of x] by simp
  then have "round_even (real_of_int 0) \<le> round_even (x / ulp x)"
    by (intro round_even_mono) simp
  then have "0 \<le> round_even (x / ulp x)" by (simp only: round_even_int)
  then show ?thesis using False ulp_pos[of x] by (simp add: fl_def)
qed

lemma fl_nonpos:
  assumes "x \<le> 0"
  shows "fl x \<le> 0"
proof (cases "x = 0")
  case True
  then show ?thesis by (simp add: fl_zero)
next
  case False
  have "x / ulp x \<le> 0" using assms ulp_pos[of x] by (simp add: divide_le_0_iff)
  then have "round_even (x / ulp x) \<le> round_even (real_of_int 0)"
    by (intro round_even_mono) simp
  then have "round_even (x / ulp x) \<le> 0" by (simp only: round_even_int)
  then have "real_of_int (round_even (x / ulp x)) * ulp x \<le> 0"
    using ulp_pos[of x] by (simp add: mult_le_0_iff)
  then show ?thesis using False by (simp add: fl_def)
qed

lemma fl_pos_upper:
  assumes "0 < x"
  shows "fl x \<le> 2 powr (real_of_int (binade x) + 1)"
proof -
  have x: "x \<noteq> 0" "\<bar>x\<bar> = x" using assms by simp_all
  have b2: "x < 2 * 2 powr real_of_int (binade x)"
    using binade_upper[OF x(1)] x(2) by (simp add: powr_add)
  have p: "0 < 2 powr real_of_int (binade x)" by simp
  have "x / ulp x < 2 ^ 53" unfolding ulp_binade using b2 p by (simp add: field_simps)
  then have "round_even (x / ulp x) \<le> round_even (real_of_int (2 ^ 53))"
    by (intro round_even_mono) simp
  then have hi: "round_even (x / ulp x) \<le> 2 ^ 53" by (simp only: round_even_int)
  have f: "fl x = real_of_int (round_even (x / ulp x)) * ulp x" using assms by (simp add: fl_def)
  have "real_of_int (round_even (x / ulp x)) * ulp x \<le> real_of_int (2 ^ 53) * ulp x"
    using hi ulp_pos[of x] by (intro mult_right_mono) simp_all
  then show ?thesis unfolding f by (simp add: ulp_binade powr_add)
qed

lemma fl_pos_lower:
  assumes "0 < x" and "- 1022 < binade x"
  shows "2 powr real_of_int (binade x) \<le> fl x"
proof -
  have x: "x \<noteq> 0" "\<bar>x\<bar> = x" using assms by simp_all
  have b1: "2 powr real_of_int (binade x) \<le> x" using binade_lower[OF x(1) assms(2)] x(2) by simp
  have p: "0 < 2 powr real_of_int (binade x)" by simp
  have "2 ^ 52 \<le> x / ulp x" unfolding ulp_binade using b1 p by (simp add: field_simps)
  then have "round_even (real_of_int (2 ^ 52)) \<le> round_even (x / ulp x)"
    by (intro round_even_mono) simp
  then have lo: "2 ^ 52 \<le> round_even (x / ulp x)" by (simp only: round_even_int)
  have f: "fl x = real_of_int (round_even (x / ulp x)) * ulp x" using assms by (simp add: fl_def)
  have "real_of_int (2 ^ 52) * ulp x \<le> real_of_int (round_even (x / ulp x)) * ulp x"
    using lo ulp_pos[of x] by (intro mult_right_mono) simp_all
  then show ?thesis unfolding f by (simp add: ulp_binade)
qed

lemma fl_neg_lower:
  assumes "x < 0"
  shows "- (2 powr (real_of_int (binade x) + 1)) \<le> fl x"
proof -
  have x: "x \<noteq> 0" "\<bar>x\<bar> = - x" using assms by simp_all
  have b2: "- x < 2 * 2 powr real_of_int (binade x)"
    using binade_upper[OF x(1)] x(2) by (simp add: powr_add)
  have p: "0 < 2 powr real_of_int (binade x)" by simp
  have "- (2 ^ 53) < x / ulp x" unfolding ulp_binade using b2 p by (simp add: field_simps)
  then have "round_even (real_of_int (- (2 ^ 53))) \<le> round_even (x / ulp x)"
    by (intro round_even_mono) simp
  then have lo: "- (2 ^ 53) \<le> round_even (x / ulp x)" by (simp only: round_even_int)
  have f: "fl x = real_of_int (round_even (x / ulp x)) * ulp x" using assms by (simp add: fl_def)
  have "real_of_int (- (2 ^ 53)) * ulp x \<le> real_of_int (round_even (x / ulp x)) * ulp x"
    using lo ulp_pos[of x] by (intro mult_right_mono) simp_all
  then show ?thesis unfolding f by (simp add: ulp_binade powr_add)
qed

lemma fl_neg_upper:
  assumes "x < 0" and "- 1022 < binade x"
  shows "fl x \<le> - (2 powr real_of_int (binade x))"
proof -
  have x: "x \<noteq> 0" "\<bar>x\<bar> = - x" using assms by simp_all
  have b1: "2 powr real_of_int (binade x) \<le> - x" using binade_lower[OF x(1) assms(2)] x(2) by simp
  have p: "0 < 2 powr real_of_int (binade x)" by simp
  have "x / ulp x \<le> - (2 ^ 52)" unfolding ulp_binade using b1 p by (simp add: field_simps)
  then have "round_even (x / ulp x) \<le> round_even (real_of_int (- (2 ^ 52)))"
    by (intro round_even_mono) simp
  then have hi: "round_even (x / ulp x) \<le> - (2 ^ 52)" by (simp only: round_even_int)
  have f: "fl x = real_of_int (round_even (x / ulp x)) * ulp x" using assms by (simp add: fl_def)
  have "real_of_int (round_even (x / ulp x)) * ulp x \<le> real_of_int (- (2 ^ 52)) * ulp x"
    using hi ulp_pos[of x] by (intro mult_right_mono) simp_all
  then show ?thesis unfolding f by (simp add: ulp_binade)
qed

lemma fl_same_binade:
  assumes "x \<le> y" "binade x = binade y" "x \<noteq> 0" "y \<noteq> 0"
  shows "fl x \<le> fl y"
proof -
  have u: "ulp x = ulp y" using assms(2) by (simp add: ulp_def)
  have "x / ulp y \<le> y / ulp y" using assms(1) ulp_pos[of y] by (simp add: divide_right_mono)
  then have "round_even (x / ulp y) \<le> round_even (y / ulp y)" by (rule round_even_mono)
  then have "real_of_int (round_even (x / ulp y)) * ulp y \<le> real_of_int (round_even (y / ulp y)) * ulp y"
    using ulp_pos[of y] by (intro mult_right_mono) simp_all
  then show ?thesis using assms(3,4) by (simp add: fl_def u)
qed

lemma fl_mono:
  assumes "x \<le> y"
  shows "fl x \<le> fl y"
proof -
  consider "x \<le> 0" "0 \<le> y" | "0 < x" "0 < y" | "x < 0" "y < 0"
    using assms by linarith
  then show ?thesis
  proof cases
    case 1
    from fl_nonpos[OF 1(1)] fl_nonneg[OF 1(2)] show ?thesis by simp
  next
    case 2
    have "binade x \<le> binade y" using 2 assms by (intro binade_mono) simp_all
    then consider "binade x = binade y" | "binade x + 1 \<le> binade y" by linarith
    then show ?thesis
    proof cases
      case 1
      with assms 2 show ?thesis by (intro fl_same_binade) simp_all
    next
      case 2
      have "- 1022 \<le> binade x" by (simp add: binade_def)
      with 2 have n: "- 1022 < binade y" by linarith
      from 2 have "real_of_int (binade x) + 1 \<le> real_of_int (binade y)" by linarith
      then have "2 powr (real_of_int (binade x) + 1) \<le> 2 powr real_of_int (binade y)"
        by (simp add: powr_mono)
      with fl_pos_upper[OF \<open>0 < x\<close>] fl_pos_lower[OF \<open>0 < y\<close> n] show ?thesis by linarith
    qed
  next
    case 3
    have "binade y \<le> binade x" using 3 assms by (intro binade_mono) simp_all
    then consider "binade x = binade y" | "binade y + 1 \<le> binade x" by linarith
    then show ?thesis
    proof cases
      case 1
      with assms 3 show ?thesis by (intro fl_same_binade) simp_all
    next
      case 2
      have "- 1022 \<le> binade y" by (simp add: binade_def)
      with 2 have n: "- 1022 < binade x" by linarith
      from 2 have "real_of_int (binade y) + 1 \<le> real_of_int (binade x)" by linarith
      then have "2 powr (real_of_int (binade y) + 1) \<le> 2 powr real_of_int (binade x)"
        by (simp add: powr_mono)
      with fl_neg_upper[OF \<open>x < 0\<close> n] fl_neg_lower[OF \<open>y < 0\<close>] show ?thesis by linarith
    qed
  qed
qed

lemma fl_evalI:
  assumes n: "n \<le> 1074"
    and lo: "2 ^ 52 \<le> \<bar>x\<bar> * 2 ^ n" and hi: "\<bar>x\<bar> * 2 ^ n < 2 ^ 53"
    and y: "real_of_int (round_even (x * 2 ^ n)) / 2 ^ n = y"
  shows "fl x = y"
proof -
  have x0: "x \<noteq> 0" using lo by auto
  have e: "2 powr real_of_int (52 - int n) = 2 ^ 52 / 2 ^ n"
    by (simp add: powr_diff powr_realpow)
  have "binade x = 52 - int n"
  proof (rule binade_eq)
    show "- 1022 \<le> 52 - int n" using n by simp
    have l: "2 ^ 52 / 2 ^ n \<le> \<bar>x\<bar>" using lo by (simp add: field_simps)
    show "2 powr real_of_int (52 - int n) \<le> \<bar>x\<bar>"
      unfolding e by (rule l)
    have "2 powr (real_of_int (52 - int n) + 1) = 2 powr real_of_int (52 - int n) * 2 powr 1"
      by (rule powr_add)
    also have "\<dots> = 2 ^ 52 / 2 ^ n * 2" by (simp only: e powr_one)
    also have "\<dots> = 2 ^ 53 / 2 ^ n" by simp
    finally have E: "2 powr (real_of_int (52 - int n) + 1) = 2 ^ 53 / 2 ^ n" .
    have h: "\<bar>x\<bar> < 2 ^ 53 / 2 ^ n" using hi by (simp add: field_simps)
    show "\<bar>x\<bar> < 2 powr (real_of_int (52 - int n) + 1)"
      unfolding E by (rule h)
  qed
  then have "ulp x = 1 / 2 ^ n"
    by (simp add: ulp_def powr_minus powr_realpow inverse_eq_divide)
  then show ?thesis using x0 y by (simp add: fl_def)
qed


section \<open>The values a knob emits\<close>

lemma Math_round_mono: "x \<le> y \<Longrightarrow> Math_round x \<le> Math_round y"
  unfolding Math_round_def by (simp add: floor_mono)

lemma fl_step: "fl 0.01 = 5764607523034235 / 576460752303423488"
  by (rule fl_evalI [where n = 59]) (simp_all add: round_even_def)

lemma fl_tenth: "fl 0.1 = 3602879701896397 / 36028797018963968"
  by (rule fl_evalI [where n = 56]) (simp_all add: round_even_def)

lemma fl_step_simp: "fl (1 / 100) = 5764607523034235 / 576460752303423488"
  using fl_step by simp

lemma fl_tenth_simp: "fl (1 / 10) = 3602879701896397 / 36028797018963968"
  using fl_tenth by simp

lemma default_step_pos: "0 < default_step"
  by (simp add: default_step_def fl_step_simp)

text \<open>
  At each bound of a knob of the synthesizer, dividing by the step, rounding and
  multiplying by the step gives the bound back.
\<close>

lemma snap_20:
  "fl (real_of_int (Math_round (fl (20 / default_step))) * default_step) = 20"
proof -
  have q: "fl (20 / default_step) = 2000"
    unfolding default_step_def fl_step fl_tenth
    by (rule fl_evalI [where n = 42]) (simp_all add: round_even_def)
  have r: "Math_round 2000 = 2000"
    by (simp add: Math_round_def)
  have v: "fl (real_of_int 2000 * default_step) = 20"
    unfolding default_step_def fl_step fl_tenth
    by (rule fl_evalI [where n = 48]) (simp_all add: round_even_def)
  show ?thesis by (simp only: q r v)
qed

lemma snap_minus_100:
  "fl (real_of_int (Math_round (fl ((- 100) / default_step))) * default_step) = - 100"
proof -
  have q: "fl ((- 100) / default_step) = - 10000"
    unfolding default_step_def fl_step fl_tenth
    by (rule fl_evalI [where n = 39]) (simp_all add: round_even_def)
  have r: "Math_round (- 10000) = - 10000"
    by (simp add: Math_round_def)
  have v: "fl (real_of_int (- 10000) * default_step) = - 100"
    unfolding default_step_def fl_step fl_tenth
    by (rule fl_evalI [where n = 46]) (simp_all add: round_even_def)
  show ?thesis by (simp only: q r v)
qed

lemma snap_tenth:
  "fl (real_of_int (Math_round (fl ((fl 0.1) / default_step))) * default_step) = fl 0.1"
proof -
  have q: "fl ((fl 0.1) / default_step) = 10"
    unfolding default_step_def fl_step fl_tenth
    by (rule fl_evalI [where n = 49]) (simp_all add: round_even_def)
  have r: "Math_round 10 = 10"
    by (simp add: Math_round_def)
  have v: "fl (real_of_int 10 * default_step) = fl 0.1"
    unfolding default_step_def fl_step fl_tenth
    by (rule fl_evalI [where n = 56]) (simp_all add: round_even_def)
  show ?thesis by (simp only: q r v)
qed

lemma snap_step:
  "fl (real_of_int (Math_round (fl ((fl 0.01) / default_step))) * default_step) = fl 0.01"
proof -
  have q: "fl ((fl 0.01) / default_step) = 1"
    unfolding default_step_def fl_step fl_tenth
    by (rule fl_evalI [where n = 52]) (simp_all add: round_even_def)
  have r: "Math_round 1 = 1"
    by (simp add: Math_round_def)
  have v: "fl (real_of_int 1 * default_step) = fl 0.01"
    unfolding default_step_def fl_step fl_tenth
    by (rule fl_evalI [where n = 59]) (simp_all add: round_even_def)
  show ?thesis by (simp only: q r v)
qed

lemma snap_2000:
  "fl (real_of_int (Math_round (fl (2000 / default_step))) * default_step) = 2000"
proof -
  have q: "fl (2000 / default_step) = 200000"
    unfolding default_step_def fl_step fl_tenth
    by (rule fl_evalI [where n = 35]) (simp_all add: round_even_def)
  have r: "Math_round 200000 = 200000"
    by (simp add: Math_round_def)
  have v: "fl (real_of_int 200000 * default_step) = 2000"
    unfolding default_step_def fl_step fl_tenth
    by (rule fl_evalI [where n = 42]) (simp_all add: round_even_def)
  show ?thesis by (simp only: q r v)
qed

lemma snap_100:
  "fl (real_of_int (Math_round (fl (100 / default_step))) * default_step) = 100"
proof -
  have q: "fl (100 / default_step) = 10000"
    unfolding default_step_def fl_step fl_tenth
    by (rule fl_evalI [where n = 39]) (simp_all add: round_even_def)
  have r: "Math_round 10000 = 10000"
    by (simp add: Math_round_def)
  have v: "fl (real_of_int 10000 * default_step) = 100"
    unfolding default_step_def fl_step fl_tenth
    by (rule fl_evalI [where n = 46]) (simp_all add: round_even_def)
  show ?thesis by (simp only: q r v)
qed

lemma snap_20000:
  "fl (real_of_int (Math_round (fl (20000 / default_step))) * default_step) = 20000"
proof -
  have q: "fl (20000 / default_step) = 2000000"
    unfolding default_step_def fl_step fl_tenth
    by (rule fl_evalI [where n = 32]) (simp_all add: round_even_def)
  have r: "Math_round 2000000 = 2000000"
    by (simp add: Math_round_def)
  have v: "fl (real_of_int 2000000 * default_step) = 20000"
    unfolding default_step_def fl_step fl_tenth
    by (rule fl_evalI [where n = 38]) (simp_all add: round_even_def)
  show ?thesis by (simp only: q r v)
qed

lemma snap_30:
  "fl (real_of_int (Math_round (fl (30 / default_step))) * default_step) = 30"
proof -
  have q: "fl (30 / default_step) = 3000"
    unfolding default_step_def fl_step fl_tenth
    by (rule fl_evalI [where n = 41]) (simp_all add: round_even_def)
  have r: "Math_round 3000 = 3000"
    by (simp add: Math_round_def)
  have v: "fl (real_of_int 3000 * default_step) = 30"
    unfolding default_step_def fl_step fl_tenth
    by (rule fl_evalI [where n = 48]) (simp_all add: round_even_def)
  show ?thesis by (simp only: q r v)
qed

lemma snap_2:
  "fl (real_of_int (Math_round (fl (2 / default_step))) * default_step) = 2"
proof -
  have q: "fl (2 / default_step) = 200"
    unfolding default_step_def fl_step fl_tenth
    by (rule fl_evalI [where n = 45]) (simp_all add: round_even_def)
  have r: "Math_round 200 = 200"
    by (simp add: Math_round_def)
  have v: "fl (real_of_int 200 * default_step) = 2"
    unfolding default_step_def fl_step fl_tenth
    by (rule fl_evalI [where n = 51]) (simp_all add: round_even_def)
  show ?thesis by (simp only: q r v)
qed

lemma snap_1:
  "fl (real_of_int (Math_round (fl (1 / default_step))) * default_step) = 1"
proof -
  have q: "fl (1 / default_step) = 100"
    unfolding default_step_def fl_step fl_tenth
    by (rule fl_evalI [where n = 46]) (simp_all add: round_even_def)
  have r: "Math_round 100 = 100"
    by (simp add: Math_round_def)
  have v: "fl (real_of_int 100 * default_step) = 1"
    unfolding default_step_def fl_step fl_tenth
    by (rule fl_evalI [where n = 52]) (simp_all add: round_even_def)
  show ?thesis by (simp only: q r v)
qed

lemma snap_3:
  "fl (real_of_int (Math_round (fl (3 / default_step))) * default_step) = 3"
proof -
  have q: "fl (3 / default_step) = 300"
    unfolding default_step_def fl_step fl_tenth
    by (rule fl_evalI [where n = 44]) (simp_all add: round_even_def)
  have r: "Math_round 300 = 300"
    by (simp add: Math_round_def)
  have v: "fl (real_of_int 300 * default_step) = 3"
    unfolding default_step_def fl_step fl_tenth
    by (rule fl_evalI [where n = 51]) (simp_all add: round_even_def)
  show ?thesis by (simp only: q r v)
qed

lemma snap_0:
  "fl (real_of_int (Math_round (fl (0 / default_step))) * default_step) = 0"
  by (simp add: fl_zero Math_round_def)

lemma snap_bound:
  assumes "b \<in> {20, - 100, fl 0.1, fl 0.01, 2000, 100, 20000, 30, 2, 1, 3, 0}"
  shows "fl (real_of_int (Math_round (fl (b / default_step))) * default_step) = b"
proof -
  from assms consider "b = 20" | "b = - 100" | "b = fl 0.1" | "b = fl 0.01" | "b = 2000" | "b = 100" | "b = 20000" | "b = 30" | "b = 2" | "b = 1" | "b = 3" | "b = 0"
    by auto
  then show ?thesis
  proof cases
    case 1
    then show ?thesis by (simp only: snap_20)
  next
    case 2
    then show ?thesis by (simp only: snap_minus_100)
  next
    case 3
    then show ?thesis by (simp only: snap_tenth)
  next
    case 4
    then show ?thesis by (simp only: snap_step)
  next
    case 5
    then show ?thesis by (simp only: snap_2000)
  next
    case 6
    then show ?thesis by (simp only: snap_100)
  next
    case 7
    then show ?thesis by (simp only: snap_20000)
  next
    case 8
    then show ?thesis by (simp only: snap_30)
  next
    case 9
    then show ?thesis by (simp only: snap_2)
  next
    case 10
    then show ?thesis by (simp only: snap_1)
  next
    case 11
    then show ?thesis by (simp only: snap_3)
  next
    case 12
    then show ?thesis by (simp only: snap_0)
  qed
qed

lemma snapped_in_range:
  assumes c: "0 < c" and x: "lo \<le> x" "x \<le> hi"
    and L: "fl (real_of_int (Math_round (fl (lo / c))) * c) = lo"
    and H: "fl (real_of_int (Math_round (fl (hi / c))) * c) = hi"
  shows "lo \<le> fl (real_of_int (Math_round (fl (x / c))) * c)"
    and "fl (real_of_int (Math_round (fl (x / c))) * c) \<le> hi"
proof -
  have m: "fl (real_of_int (Math_round (fl (a / c))) * c)
         \<le> fl (real_of_int (Math_round (fl (b / c))) * c)" if "a \<le> b" for a b
  proof -
    from that have "a / c \<le> b / c" using c by (simp add: divide_right_mono)
    then have "fl (a / c) \<le> fl (b / c)" by (rule fl_mono)
    then have "Math_round (fl (a / c)) \<le> Math_round (fl (b / c))" by (rule Math_round_mono)
    then have "real_of_int (Math_round (fl (a / c))) * c \<le> real_of_int (Math_round (fl (b / c))) * c"
      using c by (intro mult_right_mono) simp_all
    then show ?thesis by (rule fl_mono)
  qed
  from m [OF x(1)] L show "lo \<le> fl (real_of_int (Math_round (fl (x / c))) * c)" by simp
  from m [OF x(2)] H show "fl (real_of_int (Math_round (fl (x / c))) * c) \<le> hi" by simp
qed

lemma handleMouseMove_Some:
  "handleMouseMove k st clientY = Some v \<longleftrightarrow>
     isDragging st \<and>
     v = fl (real_of_int (Math_round
            (fl (max (knob_min k) (min (knob_max k) (drag_value k st clientY)) / knob_step k)))
          * knob_step k)"
  by (auto simp: handleMouseMove_def Let_def)

lemma synth_knobs_handlers:
  "\<forall>k\<in>set synth_knobs.
     (\<forall>v p. knob_get k (knob_onChange k v p) = v) \<and>
     inst_min k \<in> {20, - 100, fl 0.1, fl 0.01, 2000, 100, 20000, 30, 2, 1, 3, 0} \<and>
     inst_max k \<in> {20, - 100, fl 0.1, fl 0.01, 2000, 100, 20000, 30, 2, 1, 3, 0}"
  by (simp add: synth_knobs_def mk_knob_def setVolume_def)

lemma synth_knobs_ordered: "\<forall>k\<in>set synth_knobs. inst_min k \<le> inst_max k"
  by (simp add: synth_knobs_def mk_knob_def fl_step_simp fl_tenth_simp)

lemma synth_knob_emits_in_range:
  assumes ki: "ki \<in> set synth_knobs"
    and k: "knob_min k = inst_min ki" "knob_max k = inst_max ki" "knob_step k = default_step"
    and mv: "handleMouseMove k st clientY = Some v"
  shows "inst_min ki \<le> v" and "v \<le> inst_max ki"
proof -
  let ?c = "max (inst_min ki) (min (inst_max ki) (drag_value k st clientY))"
  from ki synth_knobs_handlers synth_knobs_ordered
  have lo: "inst_min ki \<in> {20, - 100, fl 0.1, fl 0.01, 2000, 100, 20000, 30, 2, 1, 3, 0}"
    and hi: "inst_max ki \<in> {20, - 100, fl 0.1, fl 0.01, 2000, 100, 20000, 30, 2, 1, 3, 0}"
    and le: "inst_min ki \<le> inst_max ki"
    by blast+
  from mv have v: "v = fl (real_of_int (Math_round (fl (?c / default_step))) * default_step)"
    by (simp add: handleMouseMove_Some k)
  have x: "inst_min ki \<le> ?c" "?c \<le> inst_max ki" using le by simp_all
  show "inst_min ki \<le> v" unfolding v
    using default_step_pos x snap_bound [OF lo] snap_bound [OF hi] by (rule snapped_in_range)
  show "v \<le> inst_max ki" unfolding v
    using default_step_pos x snap_bound [OF lo] snap_bound [OF hi] by (rule snapped_in_range)
qed

lemma synth_knob_drag_in_range:
  assumes k: "k \<in> set synth_knobs" and d: "isDragging st"
  shows "inst_min k \<le> knob_get k (knob_drag k st clientY p) \<and>
         knob_get k (knob_drag k st clientY p) \<le> inst_max k"
proof -
  from k synth_knobs_handlers
  have g: "\<And>v p. knob_get k (knob_onChange k v p) = v" by blast
  obtain v where mv: "handleMouseMove (knob_of k p) st clientY = Some v"
    using d by (simp add: handleMouseMove_Some)
  have K: "knob_min (knob_of k p) = inst_min k" "knob_max (knob_of k p) = inst_max k"
    "knob_step (knob_of k p) = default_step"
    by (simp_all add: knob_of_def)
  have "knob_get k (knob_drag k st clientY p) = v"
    by (simp add: knob_drag_def mv g)
  with synth_knob_emits_in_range [OF k K mv] show ?thesis by simp
qed

text \<open>
  Claim C10, as it is stated, does not hold: the knob rounds in double arithmetic, and the
  product \<^verbatim>\<open>Math.round(newValue / step) * step\<close> can pass the upper bound. For a knob
  with \<^verbatim>\<open>min = 0\<close>, \<^verbatim>\<open>max = 0.35\<close> and the default step, bounds that are \<open>0\<close> and \<open>35\<close>
  times \<open>0.01\<close>, a mouse move at the upper bound emits \<open>0.35000000000000003\<close>, the
  double just above \<^verbatim>\<open>0.35\<close>.
\<close>

theorem knob_exceeds_max:
  "handleMouseMove \<lparr>knob_value = fl 0.35, knob_min = 0, knob_max = fl 0.35, knob_step = fl 0.01\<rparr>
     \<lparr>isDragging = True, startY = 100, startValue = fl 0.35\<rparr> 100 =
     Some (6305039478318695 / 18014398509481984) \<and>
   fl 0.35 = 3152519739159347 / 9007199254740992 \<and>
   fl 0.35 < 6305039478318695 / 18014398509481984 \<and>
   (0::real) / 0.01 \<in> \<int> \<and> (0.35::real) / 0.01 \<in> \<int>"
proof -
  have f35: "fl 0.35 = 3152519739159347 / 9007199254740992"
    by (rule fl_evalI [where n = 54]) (simp_all add: round_even_def)
  have d: "fl (100 - 100) = 0" by (simp add: fl_zero)
  have pr: "fl (0 * z) = 0" for z by (simp add: fl_zero)
  have sm: "fl (fl 0.35 + 0) = fl 0.35"
    unfolding f35 by (rule fl_evalI [where n = 54]) (simp_all add: round_even_def)
  have cl: "max 0 (min (fl 0.35) (fl 0.35)) = fl 0.35"
    unfolding f35 by simp
  have q: "fl (fl 0.35 / fl 0.01) = 35"
    unfolding f35 fl_step by (rule fl_evalI [where n = 47]) (simp_all add: round_even_def)
  have r: "Math_round 35 = 35" by (simp add: Math_round_def)
  have v: "fl (real_of_int 35 * fl 0.01) = 6305039478318695 / 18014398509481984"
    unfolding fl_step by (rule fl_evalI [where n = 54]) (simp_all add: round_even_def)
  have mv: "handleMouseMove
      \<lparr>knob_value = fl 0.35, knob_min = 0, knob_max = fl 0.35, knob_step = fl 0.01\<rparr>
      \<lparr>isDragging = True, startY = 100, startValue = fl 0.35\<rparr> 100 = Some (6305039478318695 / 18014398509481984)"
    by (simp only: handleMouseMove_def drag_value_def Let_def knob_props.select_convs
        knob_state.select_convs simp_thms if_False d pr sm cl q r v)
  have lt: "fl 0.35 < 6305039478318695 / 18014398509481984" unfolding f35 by simp
  have ints: "(0::real) / 0.01 \<in> \<int>" "(0.35::real) / 0.01 \<in> \<int>" by simp_all
  from mv f35 lt ints show ?thesis by (intro conjI)
qed

text \<open>
  Claim C10, amended: a mouse move during a drag emits
  \<^verbatim>\<open>Math.round(newValue / step) * step\<close> computed in double arithmetic, where
  \<^verbatim>\<open>newValue\<close> is the drag-derived value
  \<^verbatim>\<open>startValue + (startY - clientY) * ((max - min) / 200)\<close> clamped into \<open>[min, max]\<close>.
  For each of the twelve knobs of the synthesizer, with the default step, the emitted
  value lies in \<open>[min, max]\<close> and is stored as it is, so a mouse move during a drag on
  any of them, from any state, stores a value within the bounds of that knob.
\<close>

theorem knob_emits_clamped_rounded:
  assumes mv: "handleMouseMove k st clientY = Some v"
  shows
    "v = fl (real_of_int (Math_round (fl (max (knob_min k) (min (knob_max k)
             (fl (startValue st
                  + fl (fl (startY st - clientY) * fl (fl (knob_max k - knob_min k) / 200)))))
           / knob_step k))) * knob_step k) \<and>
     (\<forall>ki\<in>set synth_knobs. \<forall>p.
        knob_min k = inst_min ki \<and> knob_max k = inst_max ki \<and> knob_step k = default_step
        \<longrightarrow> inst_min ki \<le> v \<and> v \<le> inst_max ki \<and> knob_get ki (knob_onChange ki v p) = v) \<and>
     (\<forall>ki\<in>set synth_knobs. \<forall>st' y p.
        isDragging st' \<longrightarrow>
          inst_min ki \<le> knob_get ki (knob_drag ki st' y p) \<and>
          knob_get ki (knob_drag ki st' y p) \<le> inst_max ki)"
proof -
  from mv have A: "v = fl (real_of_int (Math_round (fl (max (knob_min k) (min (knob_max k)
             (fl (startValue st
                  + fl (fl (startY st - clientY) * fl (fl (knob_max k - knob_min k) / 200)))))
           / knob_step k))) * knob_step k)"
    by (simp add: handleMouseMove_Some drag_value_def Let_def)
  have B: "inst_min ki \<le> v \<and> v \<le> inst_max ki \<and> knob_get ki (knob_onChange ki v p) = v"
    if "ki \<in> set synth_knobs"
       "knob_min k = inst_min ki \<and> knob_max k = inst_max ki \<and> knob_step k = default_step"
    for ki p
  proof -
    from that(2) have K: "knob_min k = inst_min ki" "knob_max k = inst_max ki"
      "knob_step k = default_step" by simp_all
    from that(1) synth_knobs_handlers have "knob_get ki (knob_onChange ki v p) = v" by blast
    with synth_knob_emits_in_range [OF that(1) K mv] show ?thesis by simp
  qed
  have C: "inst_min ki \<le> knob_get ki (knob_drag ki st' y p) \<and>
            knob_get ki (knob_drag ki st' y p) \<le> inst_max ki"
    if "ki \<in> set synth_knobs" "isDragging st'" for ki st' y p
    using that by (rule synth_knob_drag_in_range)
  from A B C show ?thesis by blast
qed

theorem knob_emits_clamped_rounded_witness:
  "handleMouseMove \<lparr>knob_value = 1, knob_min = fl 0.1, knob_max = 30, knob_step = fl 0.01\<rparr>
     \<lparr>isDragging = True, startY = 100, startValue = 1\<rparr> 0 =
     Some (8979051757069927 / 562949953421312) \<and>
   synth_knobs ! 3 \<in> set synth_knobs \<and>
   inst_min (synth_knobs ! 3) \<le> 8979051757069927 / 562949953421312 \<and>
   8979051757069927 / 562949953421312 \<le> inst_max (synth_knobs ! 3) \<and>
   (15.95 :: real) < 8979051757069927 / 562949953421312"
proof -
  let ?k = "\<lparr>knob_value = 1, knob_min = fl 0.1, knob_max = 30, knob_step = fl 0.01\<rparr>"
  let ?st = "\<lparr>isDragging = True, startY = 100, startValue = 1\<rparr>"
  have e1: "fl (100 - 0) = 100"
    by (rule fl_evalI [where n = 46]) (simp_all add: round_even_def)
  have e2: "fl (30 - fl 0.1) = 4208050901824307 / 140737488355328"
    unfolding fl_tenth by (rule fl_evalI [where n = 48]) (simp_all add: round_even_def)
  have e3: "fl (4208050901824307 / 140737488355328 / 200) = 5386305154335113 / 36028797018963968"
    by (rule fl_evalI [where n = 55]) (simp_all add: round_even_def)
  have e4: "fl (100 * (5386305154335113 / 36028797018963968)) = 4208050901824307 / 281474976710656"
    by (rule fl_evalI [where n = 49]) (simp_all add: round_even_def)
  have e5: "fl (1 + 4208050901824307 / 281474976710656) = 4489525878534963 / 281474976710656"
    by (rule fl_evalI [where n = 49]) (simp_all add: round_even_def)
  have cl: "max (fl 0.1) (min 30 (4489525878534963 / 281474976710656)) = 4489525878534963 / 281474976710656"
    unfolding fl_tenth by simp
  have q: "fl (4489525878534963 / 281474976710656 / fl 0.01) = 1595"
    unfolding fl_step by (rule fl_evalI [where n = 42]) (simp_all add: round_even_def)
  have r: "Math_round (1595) = 1595"
    by (simp add: Math_round_def)
  have v: "fl (real_of_int 1595 * fl 0.01) = 8979051757069927 / 562949953421312"
    unfolding fl_step by (rule fl_evalI [where n = 49]) (simp_all add: round_even_def)
  have mv: "handleMouseMove ?k ?st 0 = Some (8979051757069927 / 562949953421312)"
    by (simp only: handleMouseMove_def drag_value_def Let_def knob_props.select_convs
        knob_state.select_convs simp_thms if_False e1 e2 e3 e4 e5 cl q r v)
  have ki: "synth_knobs ! 3 \<in> set synth_knobs"
    by (simp add: synth_knobs_def)
  have K: "knob_min ?k = inst_min (synth_knobs ! 3) \<and> knob_max ?k = inst_max (synth_knobs ! 3) \<and>
      knob_step ?k = default_step"
    by (simp add: synth_knobs_def mk_knob_def default_step_def)
  from knob_emits_clamped_rounded [OF mv, THEN conjunct2, THEN conjunct1, rule_format, OF ki K]
  have "inst_min (synth_knobs ! 3) \<le> 8979051757069927 / 562949953421312" "8979051757069927 / 562949953421312 \<le> inst_max (synth_knobs ! 3)"
    by simp_all
  moreover have "(15.95 :: real) < 8979051757069927 / 562949953421312" by simp
  ultimately show ?thesis using mv ki by (intro conjI)
qed

end
